theory Spec2Isabelle
  imports Complex_Main
begin

section \<open>Numbers\<close>

text \<open>
  The program computes with IEEE floating-point numbers (numpy float32/float64 and torch
  float32).  Rounding is not modelled: a finite number is a real.  What is modelled is the
  one place where floating-point arithmetic leaves the reals in this program: numpy
  division does not raise on a zero divisor but yields an infinity or NaN, and these
  values then propagate through every later operation.  Zero is taken to be the positive
  zero (the only divisors the program uses are a length and a standard deviation).
\<close>

datatype fval = Fin real | PInf | NInf | NaN

fun fneg :: "fval \<Rightarrow> fval" where
  "fneg (Fin a) = Fin (- a)"
| "fneg PInf = NInf"
| "fneg NInf = PInf"
| "fneg NaN = NaN"

fun fadd :: "fval \<Rightarrow> fval \<Rightarrow> fval" where
  "fadd (Fin a) (Fin b) = Fin (a + b)"
| "fadd NaN _ = NaN"
| "fadd _ NaN = NaN"
| "fadd PInf NInf = NaN"
| "fadd NInf PInf = NaN"
| "fadd PInf _ = PInf"
| "fadd _ PInf = PInf"
| "fadd NInf _ = NInf"
| "fadd _ NInf = NInf"

definition fsub :: "fval \<Rightarrow> fval \<Rightarrow> fval" where
  "fsub x y = fadd x (fneg y)"

text \<open>An infinity with the sign of a non-zero real.\<close>

definition inf_of_sign :: "real \<Rightarrow> fval" where
  "inf_of_sign s = (if 0 < s then PInf else NInf)"

fun fmul :: "fval \<Rightarrow> fval \<Rightarrow> fval" where
  "fmul (Fin a) (Fin b) = Fin (a * b)"
| "fmul NaN _ = NaN"
| "fmul _ NaN = NaN"
| "fmul (Fin a) PInf = (if a = 0 then NaN else inf_of_sign a)"
| "fmul (Fin a) NInf = (if a = 0 then NaN else inf_of_sign (- a))"
| "fmul PInf (Fin b) = (if b = 0 then NaN else inf_of_sign b)"
| "fmul NInf (Fin b) = (if b = 0 then NaN else inf_of_sign (- b))"
| "fmul PInf PInf = PInf"
| "fmul PInf NInf = NInf"
| "fmul NInf PInf = NInf"
| "fmul NInf NInf = PInf"

fun fdiv :: "fval \<Rightarrow> fval \<Rightarrow> fval" where
  "fdiv (Fin a) (Fin b) =
     (if b = 0 then (if a = 0 then NaN else inf_of_sign a) else Fin (a / b))"
| "fdiv NaN _ = NaN"
| "fdiv _ NaN = NaN"
| "fdiv (Fin a) PInf = Fin 0"
| "fdiv (Fin a) NInf = Fin 0"
| "fdiv PInf (Fin b) = (if b < 0 then NInf else PInf)"
| "fdiv NInf (Fin b) = (if b < 0 then PInf else NInf)"
| "fdiv PInf PInf = NaN"
| "fdiv PInf NInf = NaN"
| "fdiv NInf PInf = NaN"
| "fdiv NInf NInf = NaN"

fun fsqrt :: "fval \<Rightarrow> fval" where
  "fsqrt (Fin a) = (if a < 0 then NaN else Fin (sqrt a))"
| "fsqrt PInf = PInf"
| "fsqrt NInf = NaN"
| "fsqrt NaN = NaN"

section \<open>discount\_cumsum\<close>

text \<open>
  \<^verbatim>\<open>scipy.signal.lfilter(b, a, x)\<close> is the library's linear filter: with the
  coefficient vectors \<open>b\<close> and \<open>a\<close> it computes, left to right,
  \<open>a[0]*y[n] = b[0]*x[n] + b[1]*x[n-1] + ... - a[1]*y[n-1] - a[2]*y[n-2] - ...\<close>,
  where inputs and outputs before the start of the sequence are zero; the output has the
  length of the input, and is empty for an empty input.  The model keeps the past inputs
  and the past outputs, most recent first.
\<close>

fun dot :: "real list \<Rightarrow> real list \<Rightarrow> real" where
  "dot (c # cs) (x # xs) = c * x + dot cs xs"
| "dot _ _ = 0"

fun lfilter_from :: "real list \<Rightarrow> real list \<Rightarrow> real list \<Rightarrow> real list \<Rightarrow> real list \<Rightarrow> real list" where
  "lfilter_from b a xpast ypast [] = []"
| "lfilter_from b a xpast ypast (x # xs) =
     (let y = (dot b (x # xpast) - dot (tl a) ypast) / hd a
      in y # lfilter_from b a (x # xpast) (y # ypast) xs)"

definition lfilter :: "real list \<Rightarrow> real list \<Rightarrow> real list \<Rightarrow> real list" where
  "lfilter b a x = lfilter_from b a [] [] x"

text \<open>
  \<^verbatim>\<open>return scipy.signal.lfilter([1], [1, float(-discount)], x[::-1], axis=0)[::-1]\<close>
\<close>

definition discount_cumsum :: "real list \<Rightarrow> real \<Rightarrow> real list" where
  "discount_cumsum x discount = rev (lfilter [1] [1, - discount] (rev x))"

section \<open>Properties of discount\_cumsum\<close>

lemma length_lfilter_from: "length (lfilter_from b a xp yp xs) = length xs"
  by (induction xs arbitrary: xp yp) (simp_all add: Let_def)

lemma length_discount_cumsum: "length (discount_cumsum x d) = length x"
  by (simp add: discount_cumsum_def lfilter_def length_lfilter_from)

lemma lfilter_from_first_order:
  "lfilter_from [1] [1, - d] xp yp (x # xs) =
     (x + d * (case yp of [] \<Rightarrow> 0 | h # _ \<Rightarrow> h)) #
       lfilter_from [1] [1, - d] (x # xp) ((x + d * (case yp of [] \<Rightarrow> 0 | h # _ \<Rightarrow> h)) # yp) xs"
  by (cases yp) (simp_all add: Let_def)

lemma lfilter_from_snoc:
  "lfilter_from [1] [1, - d] xp yp (xs @ [x]) =
     lfilter_from [1] [1, - d] xp yp xs @
       [x + d * last ((case yp of [] \<Rightarrow> 0 | h # _ \<Rightarrow> h) # lfilter_from [1] [1, - d] xp yp xs)]"
proof (induction xs arbitrary: xp yp)
  case Nil
  show ?case by (simp add: lfilter_from_first_order del: lfilter_from.simps(2))
next
  case (Cons z zs)
  show ?case
    by (simp add: lfilter_from_first_order Cons.IH del: lfilter_from.simps(2))
qed

lemma discount_cumsum_Nil: "discount_cumsum [] d = []"
  by (simp add: discount_cumsum_def lfilter_def)

lemma hd_rev_or_zero:
  "(case rev out of [] \<Rightarrow> 0 | y # _ \<Rightarrow> y) = last ((0::real) # out)"
  by (cases out rule: rev_cases) simp_all

lemma discount_cumsum_Cons:
  "discount_cumsum (x # xs) d =
     (x + d * (case discount_cumsum xs d of [] \<Rightarrow> 0 | y # _ \<Rightarrow> y)) # discount_cumsum xs d"
  unfolding discount_cumsum_def lfilter_def hd_rev_or_zero
  by (simp add: lfilter_from_snoc del: lfilter_from.simps(2) last.simps)

lemma discount_cumsum_nth:
  "i < length x \<Longrightarrow>
     discount_cumsum x d ! i = (\<Sum>k<length x - i. d ^ k * x ! (i + k))"
proof (induction x arbitrary: i)
  case Nil
  then show ?case by simp
next
  case (Cons a x)
  show ?case
  proof (cases i)
    case 0
    show ?thesis
    proof (cases x)
      case Nil
      then show ?thesis using 0 by (simp add: discount_cumsum_Cons discount_cumsum_Nil)
    next
      case (Cons b y)
      then have pos: "0 < length x" by simp
      from Cons obtain h t where ht: "discount_cumsum x d = h # t"
        using length_discount_cumsum [of x d] by (cases "discount_cumsum x d") auto
      have "h = discount_cumsum x d ! 0" using ht by simp
      also have "\<dots> = (\<Sum>k<length x. d ^ k * x ! k)"
        using Cons.IH [OF pos] by simp
      finally have h: "h = (\<Sum>k<length x. d ^ k * x ! k)" .
      have "(\<Sum>k<Suc (length x). d ^ k * (a # x) ! k) =
              d ^ 0 * (a # x) ! 0 + (\<Sum>k<length x. d ^ Suc k * (a # x) ! Suc k)"
        by (rule sum.lessThan_Suc_shift)
      also have "\<dots> = a + (\<Sum>k<length x. d ^ Suc k * x ! k)"
        by simp
      also have "\<dots> = a + d * (\<Sum>k<length x. d ^ k * x ! k)"
        by (simp add: sum_distrib_left mult.assoc)
      finally show ?thesis
        using 0 ht h by (simp add: discount_cumsum_Cons)
    qed
  next
    case (Suc j)
    then have "j < length x" using Cons.prems by simp
    then show ?thesis
      using Suc Cons.IH [of j] by (simp add: discount_cumsum_Cons)
  qed
qed

lemma discount_cumsum_zero: "discount_cumsum x 0 = x"
  by (induction x) (simp_all add: discount_cumsum_Nil discount_cumsum_Cons)

text \<open>
  C2.  For every sequence \<open>x\<close> and every discount (in particular every discount between
  0 and 1), \<open>discount_cumsum x discount\<close> has the length of \<open>x\<close> and its entry \<open>i\<close> is
  \<open>x[i] + discount*x[i+1] + discount^2*x[i+2] + ...\<close> up to the last entry of \<open>x\<close>; with
  discount 0 the output is the input, with discount 1 every entry is the plain sum of the
  suffix of \<open>x\<close> that starts there, and \<open>[1,1,1]\<close> with discount 1 gives \<open>[3,2,1]\<close>.
\<close>

theorem discount_cumsum_spec:
  "length (discount_cumsum x discount) = length x \<and>
   (\<forall>i<length x.
      discount_cumsum x discount ! i = (\<Sum>k<length x - i. discount ^ k * x ! (i + k))) \<and>
   discount_cumsum x 0 = x \<and>
   (\<forall>i<length x. discount_cumsum x 1 ! i = sum_list (drop i x)) \<and>
   discount_cumsum [1, 1, 1] 1 = [3, 2, 1]"
proof -
  have "discount_cumsum x 1 ! i = sum_list (drop i x)" if "i < length x" for i
  proof -
    have "sum_list (drop i x) = (\<Sum>k<length (drop i x). drop i x ! k)"
      by (simp add: sum_list_sum_nth atLeast0LessThan)
    also have "\<dots> = (\<Sum>k<length x - i. x ! (i + k))"
      using that by simp
    finally show ?thesis
      using discount_cumsum_nth [OF that, of 1] by simp
  qed
  moreover have "discount_cumsum [1, 1, 1] 1 = [3, 2, 1]"
    by (simp add: discount_cumsum_Cons discount_cumsum_Nil)
  ultimately show ?thesis
    by (simp add: length_discount_cumsum discount_cumsum_nth discount_cumsum_zero)
qed

theorem discount_cumsum_spec_witness:
  "length (discount_cumsum [1, 2] (1 / 2)) = 2 \<and>
   discount_cumsum [1, 2] (1 / 2) ! 0 = 2 \<and>
   discount_cumsum [1, 2] (1 / 2) ! 1 = 2 \<and>
   discount_cumsum [1, 2] 1 ! 0 = 3"
  using discount_cumsum_spec [of "[1, 2]" "1 / 2"]
  by (simp add: numeral_2_eq_2 lessThan_Suc)

section \<open>VPGBuffer\<close>

text \<open>
  A failed \<^verbatim>\<open>assert\<close> raises Python's AssertionError; numpy raises ValueError when
  the shapes of two operands (or of a slice and the value assigned to it) do not fit,
  IndexError when an index is out of range, and TypeError when \<^verbatim>\<open>None\<close> is
  assigned to an entry of a float array; torch raises RuntimeError when the shapes of two
  tensors do not fit.
\<close>

datatype error = AssertionError | ValueError | IndexError | TypeError | RuntimeError

text \<open>
  The policy is built for four actions
  (\<^verbatim>\<open>MLPCategoricalActor(obs_dim, 4, hidden_sizes, activation)\<close>), which the source
  numbers 0, 1, 2 and 3.  The buffer stores the number of an action as a float; the model
  stores the action, and the zeros of a fresh buffer are the action 0.
\<close>

datatype action = A0 | A1 | A2 | A3

text \<open>
  The buffer of class \<^verbatim>\<open>VPGBuffer\<close>.  An observation is a vector (the trainer uses
  \<^verbatim>\<open>obs_dim = [8]\<close>), an action a scalar (\<^verbatim>\<open>act_dim = []\<close>).  \<open>phi_buf\<close> holds
  the advantage estimates; it is the one array that \<open>get\<close> rewrites with the results of a
  division.
\<close>

record vpg_buffer =
  obs_buf :: "real list list"
  act_buf :: "action list"
  phi_buf :: "fval list"
  rew_buf :: "real list"
  ret_buf :: "real list"
  val_buf :: "real list"
  logp_buf :: "real list"
  gamma :: real
  lam :: real
  ptr :: nat
  path_start_idx :: nat
  max_size :: nat

definition VPGBuffer :: "nat \<Rightarrow> nat \<Rightarrow> real \<Rightarrow> real \<Rightarrow> vpg_buffer" where
  "VPGBuffer obs_dim size' gamma' lam' =
     \<lparr>obs_buf = replicate size' (replicate obs_dim 0),
      act_buf = replicate size' A0,
      phi_buf = replicate size' (Fin 0),
      rew_buf = replicate size' 0,
      ret_buf = replicate size' 0,
      val_buf = replicate size' 0,
      logp_buf = replicate size' 0,
      gamma = gamma', lam = lam',
      ptr = 0, path_start_idx = 0, max_size = size'\<rparr>"

text \<open>\<^verbatim>\<open>a[i] = v\<close> for an index that is not negative.\<close>

definition np_set :: "'a list \<Rightarrow> nat \<Rightarrow> 'a \<Rightarrow> error + 'a list" where
  "np_set xs i v = (if i < length xs then Inr (xs[i := v]) else Inl IndexError)"

text \<open>
  \<^verbatim>\<open>a[slice(s, e)]\<close>: the bounds are clipped to the array, and the slice is empty
  when \<open>e \<le> s\<close>.
\<close>

definition np_slice :: "'a list \<Rightarrow> nat \<Rightarrow> nat \<Rightarrow> 'a list" where
  "np_slice xs s e = drop s (take e xs)"

text \<open>
  An elementwise operation on two one-dimensional arrays: the lengths are equal, or one
  of them is 1 and that entry is broadcast.
\<close>

definition np_binop :: "(real \<Rightarrow> real \<Rightarrow> real) \<Rightarrow> real list \<Rightarrow> real list \<Rightarrow> error + real list" where
  "np_binop f xs ys =
     (if length xs = length ys then Inr (map2 f xs ys)
      else if length xs = 1 then Inr (map (f (hd xs)) ys)
      else if length ys = 1 then Inr (map (\<lambda>x. f x (hd ys)) xs)
      else Inl ValueError)"

text \<open>
  \<^verbatim>\<open>a[slice(s, e)] = ys\<close>: \<open>ys\<close> has the length of the slice, or length 1 and is
  broadcast.  (After the first \<open>get\<close>, \<open>phi_buf\<close> is a Python list, whose slice assignment
  splices \<open>ys\<close> in; the two agree when \<open>ys\<close> has the length of the slice.)
\<close>

definition np_set_slice :: "'a list \<Rightarrow> nat \<Rightarrow> nat \<Rightarrow> 'a list \<Rightarrow> error + 'a list" where
  "np_set_slice xs s e ys =
     (let n = length (np_slice xs s e) in
      if length ys = n then Inr (take s xs @ ys @ drop (s + n) xs)
      else if length ys = 1 then Inr (take s xs @ replicate n (hd ys) @ drop (s + n) xs)
      else Inl ValueError)"

text \<open>
  \<^verbatim>\<open>a[i] = v\<close> for a two-dimensional array \<open>a\<close> and a vector \<open>v\<close>: \<open>v\<close> has the
  length of the row, or length 1 and is broadcast; otherwise numpy raises ValueError.
\<close>

definition row_fits :: "'a list \<Rightarrow> 'a list \<Rightarrow> bool" where
  "row_fits v row \<longleftrightarrow> length v = length row \<or> length v = 1"

definition broadcast_row :: "'a list \<Rightarrow> 'a list \<Rightarrow> 'a list" where
  "broadcast_row v row = (if length v = length row then v else replicate (length row) (hd v))"

definition np_set_row :: "'a list list \<Rightarrow> nat \<Rightarrow> 'a list \<Rightarrow> error + 'a list list" where
  "np_set_row xs i v =
     (if \<not> i < length xs then Inl IndexError
      else if \<not> row_fits v (xs ! i) then Inl ValueError
      else Inr (xs[i := broadcast_row v (xs ! i)]))"

definition store :: "vpg_buffer \<Rightarrow> real list \<Rightarrow> action \<Rightarrow> real \<Rightarrow> real \<Rightarrow> real \<Rightarrow> error + vpg_buffer" where
  "store b obs act rew val logp =
     (if \<not> ptr b < max_size b then Inl AssertionError
      else case np_set_row (obs_buf b) (ptr b) obs of Inl er \<Rightarrow> Inl er | Inr obs_buf' \<Rightarrow>
           case np_set (act_buf b) (ptr b) act of Inl er \<Rightarrow> Inl er | Inr act_buf' \<Rightarrow>
           case np_set (rew_buf b) (ptr b) rew of Inl er \<Rightarrow> Inl er | Inr rew_buf' \<Rightarrow>
           case np_set (val_buf b) (ptr b) val of Inl er \<Rightarrow> Inl er | Inr val_buf' \<Rightarrow>
           case np_set (logp_buf b) (ptr b) logp of Inl er \<Rightarrow> Inl er | Inr logp_buf' \<Rightarrow>
           Inr (b\<lparr>obs_buf := obs_buf', act_buf := act_buf', rew_buf := rew_buf',
                   val_buf := val_buf', logp_buf := logp_buf', ptr := ptr b + 1\<rparr>))"

definition end_traj :: "vpg_buffer \<Rightarrow> real \<Rightarrow> error + vpg_buffer" where
  "end_traj b last_val =
     (let rews = np_slice (rew_buf b) (path_start_idx b) (ptr b) @ [last_val];
          vals = np_slice (val_buf b) (path_start_idx b) (ptr b) @ [last_val]
      in case np_binop (+) (butlast rews) (map ((*) (gamma b)) (tl vals)) of
           Inl er \<Rightarrow> Inl er
         | Inr t \<Rightarrow>
      case np_binop (-) t (butlast vals) of
           Inl er \<Rightarrow> Inl er
         | Inr deltas \<Rightarrow>
      let discount = gamma b * lam b
      in case np_set_slice (phi_buf b) (path_start_idx b) (ptr b)
                (map Fin (discount_cumsum deltas discount)) of
           Inl er \<Rightarrow> Inl er
         | Inr phi_buf' \<Rightarrow>
      case np_set_slice (ret_buf b) (path_start_idx b) (ptr b)
                (discount_cumsum (butlast rews) (gamma b)) of
           Inl er \<Rightarrow> Inl er
         | Inr ret_buf' \<Rightarrow>
      Inr (b\<lparr>phi_buf := phi_buf', ret_buf := ret_buf', path_start_idx := ptr b\<rparr>))"

text \<open>\<^verbatim>\<open>np.mean\<close> and \<^verbatim>\<open>np.std\<close> of a one-dimensional array.\<close>

definition np_mean :: "fval list \<Rightarrow> fval" where
  "np_mean xs = fdiv (foldl fadd (Fin 0) xs) (Fin (real (length xs)))"

definition np_std :: "fval list \<Rightarrow> fval" where
  "np_std xs =
     (let m = np_mean xs
      in fsqrt (np_mean (map (\<lambda>x. fmul (fsub x m) (fsub x m)) xs)))"

text \<open>The dictionary that \<open>get\<close> returns.\<close>

record batch =
  data_obs :: "real list list"
  data_act :: "action list"
  data_ret :: "real list"
  data_phi :: "fval list"
  data_logp :: "real list"

definition get :: "vpg_buffer \<Rightarrow> error + (vpg_buffer \<times> batch)" where
  "get b =
     (if ptr b \<noteq> max_size b then Inl AssertionError
      else let b0 = b\<lparr>ptr := 0, path_start_idx := 0\<rparr>;
               mean = np_mean (phi_buf b0);
               std = np_std (phi_buf b0);
               b1 = b0\<lparr>phi_buf := map (\<lambda>x. fdiv (fsub x mean) std) (phi_buf b0)\<rparr>
           in Inr (b1, \<lparr>data_obs = obs_buf b1, data_act = act_buf b1, data_ret = ret_buf b1,
                         data_phi = phi_buf b1, data_logp = logp_buf b1\<rparr>))"

text \<open>
  The state of a buffer made by \<open>VPGBuffer\<close> and used through \<open>store\<close>, \<open>end_traj\<close>
  and \<open>get\<close>: the seven arrays have \<open>max_size\<close> entries and
  \<open>path_start_idx \<le> ptr \<le> max_size\<close>.
\<close>

definition wf_buffer :: "vpg_buffer \<Rightarrow> bool" where
  "wf_buffer b \<longleftrightarrow>
     length (obs_buf b) = max_size b \<and> length (act_buf b) = max_size b \<and>
     length (phi_buf b) = max_size b \<and> length (rew_buf b) = max_size b \<and>
     length (ret_buf b) = max_size b \<and> length (val_buf b) = max_size b \<and>
     length (logp_buf b) = max_size b \<and>
     path_start_idx b \<le> ptr b \<and> ptr b \<le> max_size b"

section \<open>Properties of the buffer\<close>

lemma wf_VPGBuffer: "wf_buffer (VPGBuffer d n g l)"
  by (simp add: wf_buffer_def VPGBuffer_def)

lemma store_wf:
  assumes "wf_buffer b" and "ptr b < max_size b" and "row_fits obs (obs_buf b ! ptr b)"
  shows "store b obs act rew val logp =
           Inr (b\<lparr>obs_buf := (obs_buf b)[ptr b := broadcast_row obs (obs_buf b ! ptr b)],
                   act_buf := (act_buf b)[ptr b := act],
                   rew_buf := (rew_buf b)[ptr b := rew], val_buf := (val_buf b)[ptr b := val],
                   logp_buf := (logp_buf b)[ptr b := logp], ptr := ptr b + 1\<rparr>)"
  using assms by (simp add: store_def np_set_def np_set_row_def wf_buffer_def)

lemma store_misfit:
  assumes "wf_buffer b" and "ptr b < max_size b" and "\<not> row_fits obs (obs_buf b ! ptr b)"
  shows "store b obs act rew val logp = Inl ValueError"
  using assms by (simp add: store_def np_set_row_def wf_buffer_def)


lemma store_Inr_cases:
  assumes "wf_buffer b" and "store b obs act rew val logp = Inr b'"
  shows "ptr b < max_size b \<and> row_fits obs (obs_buf b ! ptr b)"
proof -
  have lt: "ptr b < max_size b"
    using assms(2) by (cases "ptr b < max_size b") (simp_all add: store_def)
  moreover have "row_fits obs (obs_buf b ! ptr b)"
    using assms(2) store_misfit [OF assms(1) lt, of obs act rew val logp]
    by (cases "row_fits obs (obs_buf b ! ptr b)") simp_all
  ultimately show ?thesis by simp
qed

lemma store_preserves_wf:
  assumes "wf_buffer b" and "store b obs act rew val logp = Inr b'"
  shows "wf_buffer b' \<and> ptr b' = ptr b + 1 \<and> max_size b' = max_size b \<and>
         path_start_idx b' = path_start_idx b"
proof -
  note c = store_Inr_cases [OF assms]
  then have lt: "ptr b < max_size b" and fit: "row_fits obs (obs_buf b ! ptr b)"
    by simp_all
  show ?thesis
    using assms lt store_wf [OF assms(1) lt fit, of act rew val logp]
    by (auto simp: wf_buffer_def)
qed




lemma length_np_slice: "e \<le> length xs \<Longrightarrow> length (np_slice xs s e) = e - s"
  by (simp add: np_slice_def)

lemma np_slice_nth: "e \<le> length xs \<Longrightarrow> i < e - s \<Longrightarrow> np_slice xs s e ! i = xs ! (s + i)"
  by (simp add: np_slice_def)

lemma np_slice_empty: "np_slice xs s s = []"
  by (simp add: np_slice_def)

lemma np_binop_same_length:
  "length xs = length ys \<Longrightarrow> np_binop f xs ys = Inr (map2 f xs ys)"
  by (simp add: np_binop_def)

lemma np_set_slice_same_length:
  "s \<le> e \<Longrightarrow> e \<le> length xs \<Longrightarrow> length ys = e - s \<Longrightarrow>
     np_set_slice xs s e ys = Inr (take s xs @ ys @ drop e xs)"
  by (simp add: np_set_slice_def Let_def length_np_slice)

lemma np_set_slice_empty: "np_set_slice xs s s [] = Inr xs"
  by (simp add: np_set_slice_def np_slice_empty)

text \<open>The temporal-difference residuals as \<open>end_traj\<close> computes them.\<close>

definition deltas_of :: "vpg_buffer \<Rightarrow> real \<Rightarrow> real list" where
  "deltas_of b last_val =
     map2 (-)
       (map2 (+) (np_slice (rew_buf b) (path_start_idx b) (ptr b))
          (map ((*) (gamma b)) (tl (np_slice (val_buf b) (path_start_idx b) (ptr b) @ [last_val]))))
       (np_slice (val_buf b) (path_start_idx b) (ptr b))"

lemma length_deltas_of:
  "wf_buffer b \<Longrightarrow> length (deltas_of b lv) = ptr b - path_start_idx b"
  by (simp add: deltas_of_def wf_buffer_def length_np_slice)

lemma deltas_of_nth:
  assumes "wf_buffer b" and "i < ptr b - path_start_idx b"
  shows "deltas_of b lv ! i =
           (np_slice (rew_buf b) (path_start_idx b) (ptr b) @ [lv]) ! i +
           gamma b * (np_slice (val_buf b) (path_start_idx b) (ptr b) @ [lv]) ! (i + 1) -
           (np_slice (val_buf b) (path_start_idx b) (ptr b) @ [lv]) ! i"
proof -
  let ?r = "np_slice (rew_buf b) (path_start_idx b) (ptr b)"
  let ?v = "np_slice (val_buf b) (path_start_idx b) (ptr b)"
  have lr: "length ?r = ptr b - path_start_idx b" and lv: "length ?v = ptr b - path_start_idx b"
    using assms(1) by (simp_all add: wf_buffer_def length_np_slice)
  have "tl (?v @ [lv]) ! i = (?v @ [lv]) ! (i + 1)"
    using assms(2) lv by (simp add: nth_tl)
  then show ?thesis
    using assms(2) lr lv by (simp add: deltas_of_def nth_append)
qed

lemma end_traj_wf:
  assumes "wf_buffer b"
  shows "end_traj b lv =
           Inr (b\<lparr>phi_buf := take (path_start_idx b) (phi_buf b) @
                              map Fin (discount_cumsum (deltas_of b lv) (gamma b * lam b)) @
                              drop (ptr b) (phi_buf b),
                   ret_buf := take (path_start_idx b) (ret_buf b) @
                              discount_cumsum (np_slice (rew_buf b) (path_start_idx b) (ptr b)) (gamma b) @
                              drop (ptr b) (ret_buf b),
                   path_start_idx := ptr b\<rparr>)"
proof -
  let ?r = "np_slice (rew_buf b) (path_start_idx b) (ptr b)"
  let ?v = "np_slice (val_buf b) (path_start_idx b) (ptr b)"
  have le: "path_start_idx b \<le> ptr b"
    and lphi: "ptr b \<le> length (phi_buf b)" and lret: "ptr b \<le> length (ret_buf b)"
    using assms by (simp_all add: wf_buffer_def)
  have lr: "length ?r = ptr b - path_start_idx b" and lv: "length ?v = ptr b - path_start_idx b"
    using assms by (simp_all add: wf_buffer_def length_np_slice)
  have b1: "np_binop (+) ?r (map ((*) (gamma b)) (tl (?v @ [lv]))) =
              Inr (map2 (+) ?r (map ((*) (gamma b)) (tl (?v @ [lv]))))"
    by (rule np_binop_same_length) (simp add: lr lv)
  have b2: "np_binop (-) (map2 (+) ?r (map ((*) (gamma b)) (tl (?v @ [lv])))) ?v =
              Inr (deltas_of b lv)"
    unfolding deltas_of_def by (rule np_binop_same_length) (simp add: lr lv)
  have s1: "np_set_slice (phi_buf b) (path_start_idx b) (ptr b)
              (map Fin (discount_cumsum (deltas_of b lv) (gamma b * lam b))) =
            Inr (take (path_start_idx b) (phi_buf b) @
                 map Fin (discount_cumsum (deltas_of b lv) (gamma b * lam b)) @
                 drop (ptr b) (phi_buf b))"
    by (rule np_set_slice_same_length [OF le lphi])
       (simp add: length_discount_cumsum length_deltas_of [OF assms])
  have s2: "np_set_slice (ret_buf b) (path_start_idx b) (ptr b) (discount_cumsum ?r (gamma b)) =
            Inr (take (path_start_idx b) (ret_buf b) @ discount_cumsum ?r (gamma b) @
                 drop (ptr b) (ret_buf b))"
    by (rule np_set_slice_same_length [OF le lret]) (simp add: length_discount_cumsum lr)
  show ?thesis
    unfolding end_traj_def Let_def butlast_snoc
    by (simp only: b1 b2 s1 s2 sum.case)
qed

lemma end_traj_preserves_wf:
  assumes "wf_buffer b"
  shows "\<exists>b'. end_traj b lv = Inr b' \<and> wf_buffer b' \<and> ptr b' = ptr b \<and>
           max_size b' = max_size b \<and> path_start_idx b' = ptr b"
  using assms
  by (simp add: end_traj_wf wf_buffer_def length_discount_cumsum length_deltas_of [OF assms]
      length_np_slice)

text \<open>
  C10.  When the open trajectory is empty (\<open>path_start_idx = ptr\<close>), \<open>end_traj\<close> returns
  without an error for every \<open>last_val\<close> and the buffer it leaves is the buffer it was
  given: the seven arrays, \<open>ptr\<close> and \<open>path_start_idx\<close> are unchanged.
\<close>

theorem end_traj_empty:
  assumes "path_start_idx b = ptr b"
  shows "end_traj b last_val = Inr b"
  using assms
  by (simp add: end_traj_def np_slice_empty np_set_slice_empty np_binop_def discount_cumsum_Nil)

theorem end_traj_empty_witness:
  "path_start_idx (VPGBuffer 1 2 1 1) = ptr (VPGBuffer 1 2 1 1) \<and>
   end_traj (VPGBuffer 1 2 1 1) 5 = Inr (VPGBuffer 1 2 1 1)"
  using end_traj_empty [of "VPGBuffer 1 2 1 1" 5] by (simp add: VPGBuffer_def)

lemma np_slice_map:
  "e \<le> length xs \<Longrightarrow> np_slice xs s e = map (\<lambda>i. xs ! (s + i)) [0..<e - s]"
  by (rule nth_equalityI) (simp_all add: length_np_slice np_slice_nth)

lemma deltas_of_map:
  assumes "wf_buffer b"
  shows "deltas_of b lv =
           map (\<lambda>i. (np_slice (rew_buf b) (path_start_idx b) (ptr b) @ [lv]) ! i +
                     gamma b * (np_slice (val_buf b) (path_start_idx b) (ptr b) @ [lv]) ! (i + 1) -
                     (np_slice (val_buf b) (path_start_idx b) (ptr b) @ [lv]) ! i)
             [0..<ptr b - path_start_idx b]"
  by (rule nth_equalityI)
     (simp_all add: length_deltas_of [OF assms] deltas_of_nth [OF assms] del: append.simps)

lemma nth_splice:
  "length pre = s \<Longrightarrow> i < length ys \<Longrightarrow> (pre @ ys @ post) ! (s + i) = ys ! i"
  by (simp add: nth_append)

text \<open>
  C1.  On a buffer in a state the class can reach, with the open slice
  \<open>[path_start_idx, ptr)\<close> of length \<open>n\<close>: let \<open>rewards'\<close> and \<open>values'\<close> be the rewards
  and the values of the slice, each with \<open>last_val\<close> appended, and
  \<open>delta[i] = rewards'[i] + gamma * values'[i+1] - values'[i]\<close> for \<open>i < n\<close>.  Then
  \<open>end_traj\<close> returns without an error, the advantage array holds
  \<open>discount_cumsum delta (gamma * lam)\<close> at the indices of the slice, the return array holds
  \<open>discount_cumsum\<close> of the rewards of the slice (without the appended value) with
  discount \<open>gamma\<close> there, and afterwards \<open>path_start_idx = ptr\<close>, with \<open>ptr\<close> unchanged.
\<close>

theorem end_traj_spec:
  assumes "wf_buffer b"
  shows "\<exists>b'. end_traj b last_val = Inr b' \<and>
           (let s = path_start_idx b; n = ptr b - path_start_idx b;
                rewards' = map (\<lambda>i. rew_buf b ! (s + i)) [0..<n] @ [last_val];
                values' = map (\<lambda>i. val_buf b ! (s + i)) [0..<n] @ [last_val];
                delta = map (\<lambda>i. rewards' ! i + gamma b * values' ! (i + 1) - values' ! i) [0..<n]
            in (\<forall>i<n. phi_buf b' ! (s + i) = Fin (discount_cumsum delta (gamma b * lam b) ! i)) \<and>
               (\<forall>i<n. ret_buf b' ! (s + i) = discount_cumsum (butlast rewards') (gamma b) ! i) \<and>
               path_start_idx b' = ptr b' \<and> ptr b' = ptr b)"
proof -
  let ?s = "path_start_idx b" and ?n = "ptr b - path_start_idx b"
  let ?r = "map (\<lambda>i. rew_buf b ! (?s + i)) [0..<?n]"
  let ?v = "map (\<lambda>i. val_buf b ! (?s + i)) [0..<?n]"
  let ?delta = "map (\<lambda>i. (?r @ [last_val]) ! i + gamma b * (?v @ [last_val]) ! (i + 1) -
                          (?v @ [last_val]) ! i) [0..<?n]"
  have le: "?s \<le> length (phi_buf b)" "?s \<le> length (ret_buf b)"
    using assms by (simp_all add: wf_buffer_def)
  have r: "np_slice (rew_buf b) ?s (ptr b) = ?r" and v: "np_slice (val_buf b) ?s (ptr b) = ?v"
    using assms by (simp_all add: wf_buffer_def np_slice_map)
  have d: "deltas_of b last_val = ?delta"
    using deltas_of_map [OF assms, of last_val] by (simp only: r v)
  have phi: "(take ?s (phi_buf b) @ map Fin (discount_cumsum ?delta (gamma b * lam b)) @
               drop (ptr b) (phi_buf b)) ! (?s + i) =
             Fin (discount_cumsum ?delta (gamma b * lam b) ! i)" if "i < ?n" for i
    using that le by (subst nth_splice) (simp_all add: length_discount_cumsum)
  have ret: "(take ?s (ret_buf b) @ discount_cumsum ?r (gamma b) @ drop (ptr b) (ret_buf b)) ! (?s + i) =
             discount_cumsum ?r (gamma b) ! i" if "i < ?n" for i
    using that le by (subst nth_splice) (simp_all add: length_discount_cumsum)
  show ?thesis
    unfolding end_traj_wf [OF assms] r v d Let_def butlast_snoc
    using phi ret by simp
qed

theorem end_traj_spec_witness:
  "wf_buffer ((VPGBuffer 1 2 (1 / 2) 1)\<lparr>rew_buf := [1, 2], ptr := 2\<rparr>) \<and>
   (\<exists>b'. end_traj ((VPGBuffer 1 2 (1 / 2) 1)\<lparr>rew_buf := [1, 2], ptr := 2\<rparr>) 0 = Inr b' \<and>
      phi_buf b' ! 0 = Fin 2 \<and> ret_buf b' ! 1 = 2 \<and> path_start_idx b' = 2)"
proof -
  let ?b = "(VPGBuffer 1 2 (1 / 2) 1)\<lparr>rew_buf := [1, 2], ptr := 2\<rparr>"
  have w: "wf_buffer ?b"
    by (simp add: wf_buffer_def VPGBuffer_def)
  have u: "[0..<2] = [0, 1]"
    by (simp add: numeral_2_eq_2)
  have dc: "discount_cumsum [1, 2] (1 / 2) = [2, 2]"
    by (simp add: discount_cumsum_Cons discount_cumsum_Nil)
  obtain b' where b': "end_traj ?b 0 = Inr b'"
    and phi: "\<forall>i<2. phi_buf b' ! i = Fin ([2, 2] ! i)"
    and ret: "\<forall>i<2. ret_buf b' ! i = [2, 2] ! i"
    and ps: "path_start_idx b' = ptr b'" "ptr b' = 2"
    using end_traj_spec [OF w, of 0]
    by (auto simp: VPGBuffer_def Let_def u dc)
  have "phi_buf b' ! 0 = Fin 2" using phi by auto
  moreover have "ret_buf b' ! 1 = 2" using ret by auto
  ultimately show ?thesis using w b' ps by auto
qed

section \<open>Properties of get\<close>

text \<open>
  The mean and the (population) standard deviation of a sequence of reals, as the
  specification words them.
\<close>

definition spec_mean :: "real list \<Rightarrow> real" where
  "spec_mean xs = sum_list xs / real (length xs)"

definition spec_std :: "real list \<Rightarrow> real" where
  "spec_std xs = sqrt (sum_list (map (\<lambda>x. (x - spec_mean xs)\<^sup>2) xs) / real (length xs))"

lemma foldl_fadd_Fin: "foldl fadd (Fin a) (map Fin xs) = Fin (a + sum_list xs)"
  by (induction xs arbitrary: a) (simp_all add: add.assoc)

lemma np_mean_Fin: "xs \<noteq> [] \<Longrightarrow> np_mean (map Fin xs) = Fin (spec_mean xs)"
  by (simp add: np_mean_def spec_mean_def foldl_fadd_Fin)

lemma np_std_Fin:
  assumes "xs \<noteq> []"
  shows "np_std (map Fin xs) = Fin (spec_std xs)"
proof -
  let ?m = "spec_mean xs"
  let ?sq = "map (\<lambda>x. (x - ?m)\<^sup>2) xs"
  have sq: "map (\<lambda>x. fmul (fsub x (Fin ?m)) (fsub x (Fin ?m))) (map Fin xs) = map Fin ?sq"
    by (simp add: fsub_def power2_eq_square)
  have m: "np_mean (map Fin ?sq) = Fin (spec_mean ?sq)"
    using assms by (intro np_mean_Fin) simp
  have nonneg: "0 \<le> spec_mean ?sq"
    unfolding spec_mean_def by (intro divide_nonneg_nonneg sum_list_nonneg) auto
  have "np_std (map Fin xs) = fsqrt (Fin (spec_mean ?sq))"
    unfolding np_std_def Let_def np_mean_Fin [OF assms] sq m ..
  also have "\<dots> = Fin (sqrt (spec_mean ?sq))"
    using nonneg by simp
  also have "sqrt (spec_mean ?sq) = spec_std xs"
    by (simp add: spec_std_def spec_mean_def)
  finally show ?thesis .
qed

lemma get_not_full: "ptr b \<noteq> max_size b \<Longrightarrow> get b = Inl AssertionError"
  by (simp add: get_def)

lemma get_full:
  "ptr b = max_size b \<Longrightarrow>
     get b = Inr (b\<lparr>ptr := 0, path_start_idx := 0,
                     phi_buf := map (\<lambda>x. fdiv (fsub x (np_mean (phi_buf b))) (np_std (phi_buf b)))
                                  (phi_buf b)\<rparr>,
                  \<lparr>data_obs = obs_buf b, data_act = act_buf b, data_ret = ret_buf b,
                   data_phi = map (\<lambda>x. fdiv (fsub x (np_mean (phi_buf b))) (np_std (phi_buf b)))
                                  (phi_buf b),
                   data_logp = logp_buf b\<rparr>)"
  by (simp add: get_def Let_def)

lemma get_preserves_wf:
  assumes "wf_buffer b" and "get b = Inr (b', d)"
  shows "wf_buffer b' \<and> ptr b' = 0 \<and> path_start_idx b' = 0 \<and> max_size b' = max_size b"
proof -
  have "ptr b = max_size b"
    using assms(2) by (cases "ptr b = max_size b") (simp_all add: get_def)
  then show ?thesis
    using assms by (auto simp: get_full wf_buffer_def)
qed

text \<open>A sequence of \<open>store\<close> and \<open>end_traj\<close> calls on a buffer, stopping at the first error.\<close>

datatype buf_op = Store "real list" action real real real | EndTraj real

fun is_Store :: "buf_op \<Rightarrow> bool" where
  "is_Store (Store _ _ _ _ _) = True"
| "is_Store (EndTraj _) = False"

fun run_op :: "vpg_buffer \<Rightarrow> buf_op \<Rightarrow> error + vpg_buffer" where
  "run_op b (Store obs act rew val logp) = store b obs act rew val logp"
| "run_op b (EndTraj last_val) = end_traj b last_val"

fun run_ops :: "vpg_buffer \<Rightarrow> buf_op list \<Rightarrow> error + vpg_buffer" where
  "run_ops b [] = Inr b"
| "run_ops b (x # xs) = (case run_op b x of Inl er \<Rightarrow> Inl er | Inr b' \<Rightarrow> run_ops b' xs)"

lemma run_op_wf:
  assumes "wf_buffer b" and "run_op b x = Inr b'"
  shows "wf_buffer b' \<and> max_size b' = max_size b \<and>
         ptr b' = ptr b + (if is_Store x then 1 else 0)"
proof (cases x)
  case (Store obs act rew val logp)
  then show ?thesis
    using assms store_preserves_wf [of b obs act rew val logp b'] by simp
next
  case (EndTraj lv)
  then show ?thesis
    using assms end_traj_preserves_wf [of b lv] by auto
qed

lemma run_ops_wf:
  "wf_buffer b \<Longrightarrow> run_ops b xs = Inr b' \<Longrightarrow>
     wf_buffer b' \<and> max_size b' = max_size b \<and> ptr b' = ptr b + length (filter is_Store xs)"
proof (induction xs arbitrary: b)
  case Nil
  then show ?case by simp
next
  case (Cons x xs)
  from Cons.prems(2) obtain b1 where b1: "run_op b x = Inr b1" and rest: "run_ops b1 xs = Inr b'"
    by (auto split: sum.splits)
  note s = run_op_wf [OF Cons.prems(1) b1]
  from Cons.IH [of b1] s rest show ?case
    by (cases "is_Store x") simp_all
qed

lemma normalise_Fin:
  assumes "xs \<noteq> []" and "spec_std xs \<noteq> 0"
  shows "map (\<lambda>x. fdiv (fsub x (np_mean (map Fin xs))) (np_std (map Fin xs))) (map Fin xs) =
           map (\<lambda>x. Fin ((x - spec_mean xs) / spec_std xs)) xs"
  unfolding np_mean_Fin [OF assms(1)] np_std_Fin [OF assms(1)]
  using assms(2) by (simp add: fsub_def)

lemma get_then_ops_not_full:
  assumes "wf_buffer b" and "get b = Inr (b', d)" and "run_ops b' ops = Inr b2"
    and "length (filter is_Store ops) < max_size b"
  shows "get b2 = Inl AssertionError"
proof -
  note g = get_preserves_wf [OF assms(1,2)]
  then have "wf_buffer b'" by simp
  from run_ops_wf [OF this assms(3)] g assms(4) have "ptr b2 \<noteq> max_size b2"
    by simp
  then show ?thesis by (rule get_not_full)
qed

text \<open>
  C5.  \<open>get\<close> fails exactly when \<open>ptr \<noteq> max_size\<close> (the failure is the assertion of
  the source).  When it succeeds, every advantage entry is rewritten as \<open>(x - mean) / std\<close>
  with the mean and the standard deviation of the whole advantage array (for finite
  advantages with a non-zero standard deviation this is the quotient of reals), \<open>ptr\<close> and
  \<open>path_start_idx\<close> are 0, and the batch holds the observations, actions, returns,
  normalised advantages and log-probabilities, each of length \<open>max_size\<close>.  After a
  successful \<open>get\<close>, any run of \<open>store\<close> and \<open>end_traj\<close> calls with fewer than
  \<open>max_size\<close> stores leaves a buffer on which \<open>get\<close> fails; in particular a second
  \<open>get\<close> right after the first fails when the capacity is not zero.
\<close>

theorem get_spec:
  "(isl (get b) \<longleftrightarrow> ptr b \<noteq> max_size b) \<and>
   (ptr b \<noteq> max_size b \<longrightarrow> get b = Inl AssertionError) \<and>
   (ptr b = max_size b \<longrightarrow>
      (\<exists>b' d. get b = Inr (b', d) \<and>
         phi_buf b' =
           map (\<lambda>x. fdiv (fsub x (np_mean (phi_buf b))) (np_std (phi_buf b))) (phi_buf b) \<and>
         (\<forall>xs. phi_buf b = map Fin xs \<and> xs \<noteq> [] \<and> spec_std xs \<noteq> 0 \<longrightarrow>
            phi_buf b' = map (\<lambda>x. Fin ((x - spec_mean xs) / spec_std xs)) xs) \<and>
         ptr b' = 0 \<and> path_start_idx b' = 0 \<and>
         data_obs d = obs_buf b \<and> data_act d = act_buf b \<and> data_ret d = ret_buf b \<and>
         data_phi d = phi_buf b' \<and> data_logp d = logp_buf b \<and>
         (wf_buffer b \<longrightarrow>
            length (data_obs d) = max_size b \<and> length (data_act d) = max_size b \<and>
            length (data_ret d) = max_size b \<and> length (data_phi d) = max_size b \<and>
            length (data_logp d) = max_size b) \<and>
         (\<forall>ops b2. wf_buffer b \<and> run_ops b' ops = Inr b2 \<and>
            length (filter is_Store ops) < max_size b \<longrightarrow> get b2 = Inl AssertionError)))"
proof (cases "ptr b = max_size b")
  case False
  then show ?thesis by (simp add: get_not_full)
next
  case True
  let ?phi = "map (\<lambda>x. fdiv (fsub x (np_mean (phi_buf b))) (np_std (phi_buf b))) (phi_buf b)"
  let ?b' = "b\<lparr>ptr := 0, path_start_idx := 0, phi_buf := ?phi\<rparr>"
  let ?d = "\<lparr>data_obs = obs_buf b, data_act = act_buf b, data_ret = ret_buf b,
            data_phi = ?phi, data_logp = logp_buf b\<rparr>"
  have g: "get b = Inr (?b', ?d)"
    using True by (rule get_full)
  have fin: "\<forall>xs. phi_buf b = map Fin xs \<and> xs \<noteq> [] \<and> spec_std xs \<noteq> 0 \<longrightarrow>
               phi_buf ?b' = map (\<lambda>x. Fin ((x - spec_mean xs) / spec_std xs)) xs"
    using normalise_Fin by auto
  have len: "wf_buffer b \<longrightarrow>
            length (data_obs ?d) = max_size b \<and> length (data_act ?d) = max_size b \<and>
            length (data_ret ?d) = max_size b \<and> length (data_phi ?d) = max_size b \<and>
            length (data_logp ?d) = max_size b"
    by (simp add: wf_buffer_def)
  have again: "\<forall>ops b2. wf_buffer b \<and> run_ops ?b' ops = Inr b2 \<and>
            length (filter is_Store ops) < max_size b \<longrightarrow> get b2 = Inl AssertionError"
    using get_then_ops_not_full [OF _ g] by blast
  have "get b = Inr (?b', ?d) \<and> phi_buf ?b' = ?phi \<and>
         (\<forall>xs. phi_buf b = map Fin xs \<and> xs \<noteq> [] \<and> spec_std xs \<noteq> 0 \<longrightarrow>
            phi_buf ?b' = map (\<lambda>x. Fin ((x - spec_mean xs) / spec_std xs)) xs) \<and>
         ptr ?b' = 0 \<and> path_start_idx ?b' = 0 \<and>
         data_obs ?d = obs_buf b \<and> data_act ?d = act_buf b \<and> data_ret ?d = ret_buf b \<and>
         data_phi ?d = phi_buf ?b' \<and> data_logp ?d = logp_buf b \<and>
         (wf_buffer b \<longrightarrow>
            length (data_obs ?d) = max_size b \<and> length (data_act ?d) = max_size b \<and>
            length (data_ret ?d) = max_size b \<and> length (data_phi ?d) = max_size b \<and>
            length (data_logp ?d) = max_size b) \<and>
         (\<forall>ops b2. wf_buffer b \<and> run_ops ?b' ops = Inr b2 \<and>
            length (filter is_Store ops) < max_size b \<longrightarrow> get b2 = Inl AssertionError)"
    using g fin len again by simp
  then have "\<exists>b' d. get b = Inr (b', d) \<and>
         phi_buf b' = ?phi \<and>
         (\<forall>xs. phi_buf b = map Fin xs \<and> xs \<noteq> [] \<and> spec_std xs \<noteq> 0 \<longrightarrow>
            phi_buf b' = map (\<lambda>x. Fin ((x - spec_mean xs) / spec_std xs)) xs) \<and>
         ptr b' = 0 \<and> path_start_idx b' = 0 \<and>
         data_obs d = obs_buf b \<and> data_act d = act_buf b \<and> data_ret d = ret_buf b \<and>
         data_phi d = phi_buf b' \<and> data_logp d = logp_buf b \<and>
         (wf_buffer b \<longrightarrow>
            length (data_obs d) = max_size b \<and> length (data_act d) = max_size b \<and>
            length (data_ret d) = max_size b \<and> length (data_phi d) = max_size b \<and>
            length (data_logp d) = max_size b) \<and>
         (\<forall>ops b2. wf_buffer b \<and> run_ops b' ops = Inr b2 \<and>
            length (filter is_Store ops) < max_size b \<longrightarrow> get b2 = Inl AssertionError)"
    by (intro exI)
  moreover have "\<not> isl (get b)"
    using g by simp
  ultimately show ?thesis
    using True by simp
qed

theorem get_spec_witness:
  "ptr ((VPGBuffer 1 2 1 1)\<lparr>phi_buf := [Fin 1, Fin 3], ptr := 2\<rparr>) =
     max_size ((VPGBuffer 1 2 1 1)\<lparr>phi_buf := [Fin 1, Fin 3], ptr := 2\<rparr>) \<and>
   wf_buffer ((VPGBuffer 1 2 1 1)\<lparr>phi_buf := [Fin 1, Fin 3], ptr := 2\<rparr>) \<and>
   (\<exists>b' d. get ((VPGBuffer 1 2 1 1)\<lparr>phi_buf := [Fin 1, Fin 3], ptr := 2\<rparr>) = Inr (b', d) \<and>
      data_phi d = [Fin (- 1), Fin 1] \<and> ptr b' = 0 \<and> get b' = Inl AssertionError)"
proof -
  let ?B = "(VPGBuffer 1 2 1 1)\<lparr>phi_buf := [Fin 1, Fin 3], ptr := 2\<rparr>"
  have full: "ptr ?B = max_size ?B" and w: "wf_buffer ?B"
    by (simp_all add: VPGBuffer_def wf_buffer_def)
  have sm: "spec_mean [1, 3] = 2"
    by (simp add: spec_mean_def)
  have sd: "spec_std [1, 3] = 1"
    by (simp add: spec_std_def sm)
  from get_spec [of ?B] full obtain b' d where g: "get ?B = Inr (b', d)"
    and fin: "\<forall>xs. phi_buf ?B = map Fin xs \<and> xs \<noteq> [] \<and> spec_std xs \<noteq> 0 \<longrightarrow>
                phi_buf b' = map (\<lambda>x. Fin ((x - spec_mean xs) / spec_std xs)) xs"
    and p: "ptr b' = 0" and dphi: "data_phi d = phi_buf b'"
    and again: "\<forall>ops b2. wf_buffer ?B \<and> run_ops b' ops = Inr b2 \<and>
                  length (filter is_Store ops) < max_size ?B \<longrightarrow> get b2 = Inl AssertionError"
    by blast
  have "phi_buf b' = [Fin (- 1), Fin 1]"
    using fin [rule_format, of "[1, 3]"] by (simp add: VPGBuffer_def sm sd)
  moreover have "get b' = Inl AssertionError"
    using again [rule_format, of "[]" b'] w by (simp add: VPGBuffer_def)
  ultimately show ?thesis
    using full w g p dphi by auto
qed

text \<open>
  C6 as stated fails on the code: \<open>get\<close> has no floor under the standard deviation.  Two
  transitions with reward 0 and value 0, closed with \<open>end_traj 0\<close>, fill a buffer of
  capacity 2 with the advantages 0 and 0; \<open>get\<close> then returns without an error and both
  normalised advantages are NaN.
\<close>

theorem get_degenerate_counterexample:
  "run_ops (VPGBuffer 1 2 (99 / 100) (97 / 100))
     [Store [0] A0 0 0 0, Store [0] A0 0 0 0, EndTraj 0] =
     Inr ((VPGBuffer 1 2 (99 / 100) (97 / 100))\<lparr>ptr := 2, path_start_idx := 2\<rparr>) \<and>
   get ((VPGBuffer 1 2 (99 / 100) (97 / 100))\<lparr>ptr := 2, path_start_idx := 2\<rparr>) =
     Inr ((VPGBuffer 1 2 (99 / 100) (97 / 100))\<lparr>phi_buf := [NaN, NaN]\<rparr>,
          \<lparr>data_obs = [[0], [0]], data_act = [A0, A0], data_ret = [0, 0],
           data_phi = [NaN, NaN], data_logp = [0, 0]\<rparr>)"
proof -
  have u: "replicate 2 x = [x, x]" for x :: 'a
    by (simp add: numeral_2_eq_2)
  have s1: "store (VPGBuffer 1 2 (99 / 100) (97 / 100)) [0] A0 0 0 0 =
              Inr ((VPGBuffer 1 2 (99 / 100) (97 / 100))\<lparr>ptr := 1\<rparr>)"
    by (simp add: store_def np_set_def np_set_row_def row_fits_def broadcast_row_def VPGBuffer_def u)
  have s2: "store ((VPGBuffer 1 2 (99 / 100) (97 / 100))\<lparr>ptr := 1\<rparr>) [0] A0 0 0 0 =
              Inr ((VPGBuffer 1 2 (99 / 100) (97 / 100))\<lparr>ptr := 2\<rparr>)"
    by (simp add: store_def np_set_def np_set_row_def row_fits_def broadcast_row_def VPGBuffer_def u)
  have dc: "discount_cumsum [0, 0] d = [0, 0]" for d
    by (simp add: discount_cumsum_Cons discount_cumsum_Nil)
  have e: "end_traj ((VPGBuffer 1 2 (99 / 100) (97 / 100))\<lparr>ptr := 2\<rparr>) 0 =
              Inr ((VPGBuffer 1 2 (99 / 100) (97 / 100))\<lparr>ptr := 2, path_start_idx := 2\<rparr>)"
    by (simp add: end_traj_def np_slice_def np_binop_def np_set_slice_def VPGBuffer_def u dc)
  have g: "get ((VPGBuffer 1 2 (99 / 100) (97 / 100))\<lparr>ptr := 2, path_start_idx := 2\<rparr>) =
     Inr ((VPGBuffer 1 2 (99 / 100) (97 / 100))\<lparr>phi_buf := [NaN, NaN]\<rparr>,
          \<lparr>data_obs = [[0], [0]], data_act = [A0, A0], data_ret = [0, 0],
           data_phi = [NaN, NaN], data_logp = [0, 0]\<rparr>)"
    by (simp add: get_def VPGBuffer_def u np_mean_def np_std_def fsub_def Let_def)
  show ?thesis
    using s1 s2 e g by simp
qed

text \<open>
  C6 as amended.  \<open>get\<close> applies no floor to the denominator: whenever the buffer is
  full it returns without an error, and every normalised advantage is \<open>(x - mean) / std\<close>
  with numpy's division by the computed standard deviation as it is.  For finite
  advantages: when the computed standard deviation is zero, every normalised advantage is
  NaN or an infinity; when all advantages are 0, the computed standard deviation is zero
  and every normalised advantage is NaN, in the buffer and in the returned batch.
\<close>

theorem get_degenerate:
  assumes "ptr b = max_size b" and "phi_buf b = map Fin xs"
  shows "\<exists>b' d. get b = Inr (b', d) \<and> data_phi d = phi_buf b' \<and>
           phi_buf b' =
             map (\<lambda>x. fdiv (fsub x (np_mean (phi_buf b))) (np_std (phi_buf b))) (phi_buf b) \<and>
           (np_std (phi_buf b) = Fin 0 \<longrightarrow>
              (\<forall>y\<in>set (phi_buf b'). y = NaN \<or> y = PInf \<or> y = NInf)) \<and>
           (xs \<noteq> [] \<and> (\<forall>x\<in>set xs. x = 0) \<longrightarrow>
              np_std (phi_buf b) = Fin 0 \<and> phi_buf b' = replicate (length xs) NaN)"
proof -
  let ?norm = "map (\<lambda>x. fdiv (fsub x (np_mean (map Fin xs))) (np_std (map Fin xs))) (map Fin xs)"
  have zero_std: "y = NaN \<or> y = PInf \<or> y = NInf"
    if std: "np_std (map Fin xs) = Fin 0" and y: "y \<in> set ?norm" for y
  proof -
    have "xs \<noteq> []"
      using std by (auto simp: np_std_def np_mean_def)
    then have m: "np_mean (map Fin xs) = Fin (spec_mean xs)"
      by (rule np_mean_Fin)
    from y obtain x where "y = fdiv (fsub (Fin x) (Fin (spec_mean xs))) (Fin 0)"
      unfolding m std by auto
    then show ?thesis
      by (simp add: fsub_def inf_of_sign_def)
  qed
  have all_zero: "np_std (map Fin xs) = Fin 0 \<and> ?norm = replicate (length xs) NaN"
    if ne: "xs \<noteq> []" and z: "\<forall>x\<in>set xs. x = 0"
  proof -
    have xs: "replicate (length xs) 0 = xs"
      using z by (intro replicate_length_same) simp
    have "sum_list (replicate (length xs) (0::real)) = 0"
      by (simp add: sum_list_replicate)
    then have m0: "spec_mean xs = 0"
      unfolding xs by (simp add: spec_mean_def)
    have "sum_list (map (\<lambda>x. (x - 0)\<^sup>2) (replicate (length xs) (0::real))) = 0"
      by (simp add: sum_list_replicate)
    then have sd0: "spec_std xs = 0"
      unfolding xs by (simp add: spec_std_def m0)
    have std: "np_std (map Fin xs) = Fin 0"
      using np_std_Fin [OF ne] sd0 by simp
    have "?norm = map (\<lambda>x. NaN) xs"
      unfolding np_mean_Fin [OF ne] std m0 using z by (simp add: fsub_def)
    then show ?thesis
      using std by (simp add: map_replicate_const)
  qed
  let ?b' = "b\<lparr>ptr := 0, path_start_idx := 0,
               phi_buf := map (\<lambda>x. fdiv (fsub x (np_mean (phi_buf b))) (np_std (phi_buf b)))
                            (phi_buf b)\<rparr>"
  let ?d = "\<lparr>data_obs = obs_buf b, data_act = act_buf b, data_ret = ret_buf b,
            data_phi = map (\<lambda>x. fdiv (fsub x (np_mean (phi_buf b))) (np_std (phi_buf b)))
                         (phi_buf b),
            data_logp = logp_buf b\<rparr>"
  have g: "get b = Inr (?b', ?d)"
    using assms(1) by (rule get_full)
  have n: "phi_buf ?b' = ?norm"
    by (simp add: assms(2))
  have a: "np_std (phi_buf b) = Fin 0 \<longrightarrow>
             (\<forall>y\<in>set (phi_buf ?b'). y = NaN \<or> y = PInf \<or> y = NInf)"
    unfolding n using zero_std by (auto simp: assms(2))
  have z: "xs \<noteq> [] \<and> (\<forall>x\<in>set xs. x = 0) \<longrightarrow>
             np_std (phi_buf b) = Fin 0 \<and> phi_buf ?b' = replicate (length xs) NaN"
    unfolding n using all_zero by (auto simp: assms(2))
  have "data_phi ?d = phi_buf ?b'"
    and "phi_buf ?b' =
           map (\<lambda>x. fdiv (fsub x (np_mean (phi_buf b))) (np_std (phi_buf b))) (phi_buf b)"
    by simp_all
  with g a z show ?thesis
    by blast
qed

theorem get_degenerate_witness:
  "ptr ((VPGBuffer 1 2 1 1)\<lparr>ptr := 2\<rparr>) = max_size ((VPGBuffer 1 2 1 1)\<lparr>ptr := 2\<rparr>) \<and>
   phi_buf ((VPGBuffer 1 2 1 1)\<lparr>ptr := 2\<rparr>) = map Fin [0, 0] \<and>
   np_std (phi_buf ((VPGBuffer 1 2 1 1)\<lparr>ptr := 2\<rparr>)) = Fin 0 \<and>
   (\<exists>b' d. get ((VPGBuffer 1 2 1 1)\<lparr>ptr := 2\<rparr>) = Inr (b', d) \<and> data_phi d = [NaN, NaN])"
proof -
  let ?B = "(VPGBuffer 1 2 1 1)\<lparr>ptr := 2\<rparr>"
  have full: "ptr ?B = max_size ?B" and phi: "phi_buf ?B = map Fin [0, 0]"
    by (simp_all add: VPGBuffer_def numeral_2_eq_2)
  have z: "[0, 0 :: real] \<noteq> [] \<and> (\<forall>x\<in>set [0, 0 :: real]. x = 0)"
    by simp
  from get_degenerate [OF full phi] z
  obtain b' d where "get ?B = Inr (b', d)" and "data_phi d = phi_buf b'"
    and "np_std (phi_buf ?B) = Fin 0" and "phi_buf b' = replicate (length [0, 0 :: real]) NaN"
    by blast
  then show ?thesis
    using full phi by (auto simp: numeral_2_eq_2)
qed

section \<open>The actor-critic, the agent and the training loop\<close>

text \<open>
  What the trainer takes from outside the repository is a parameter of the model: the
  two networks that \<^verbatim>\<open>mlp\<close> builds (evaluated by torch), the sampler of
  \<^verbatim>\<open>Categorical\<close> (which reads and advances the state \<open>'g\<close> of torch's random
  generator), the Adam optimisers with autograd, and the environment.  \<open>'p\<close> is the
  state of the policy side (the parameters of \<^verbatim>\<open>ac.pi\<close>, their gradients and the
  state of \<^verbatim>\<open>pi_optimizer\<close>), \<open>'q\<close> that of the value side, \<open>'e\<close> the state of the
  environment.  \<open>backward\<close> takes the loss as a function of the parameters and adds its
  gradient at the current parameters to the stored gradients.
\<close>

record ('e, 'g, 'p, 'q) collab =
  logits_net :: "'p \<Rightarrow> real list \<Rightarrow> action \<Rightarrow> real"
  v_net :: "'q \<Rightarrow> real list \<Rightarrow> real"
  sample :: "'g \<Rightarrow> (action \<Rightarrow> real) \<Rightarrow> action \<times> 'g"
  pi_zero_grad :: "'p \<Rightarrow> 'p"
  pi_backward :: "('p \<Rightarrow> fval) \<Rightarrow> 'p \<Rightarrow> 'p"
  pi_opt_step :: "'p \<Rightarrow> 'p"
  v_zero_grad :: "'q \<Rightarrow> 'q"
  v_backward :: "('q \<Rightarrow> fval) \<Rightarrow> 'q \<Rightarrow> 'q"
  v_opt_step :: "'q \<Rightarrow> 'q"
  env_reset :: "'e \<Rightarrow> real list \<times> 'e"
  env_step :: "'e \<Rightarrow> action \<Rightarrow> (real list \<times> real \<times> bool \<times> bool) \<times> 'e"

text \<open>
  \<^verbatim>\<open>Categorical(logits=logits)\<close> is represented by its logits;
  \<^verbatim>\<open>pi.log_prob(act)\<close> is the logit of the action minus the logarithm of the sum of
  the exponentials of all logits.
\<close>

definition log_prob :: "(action \<Rightarrow> real) \<Rightarrow> action \<Rightarrow> real" where
  "log_prob logits a =
     logits a - ln (exp (logits A0) + exp (logits A1) + exp (logits A2) + exp (logits A3))"

text \<open>\<^verbatim>\<open>MLPCategoricalActor\<close>: \<^verbatim>\<open>_distribution\<close>, \<^verbatim>\<open>_log_prob_from_distribution\<close> and \<^verbatim>\<open>forward\<close>.\<close>

definition distribution :: "('e, 'g, 'p, 'q) collab \<Rightarrow> 'p \<Rightarrow> real list \<Rightarrow> action \<Rightarrow> real" where
  "distribution c \<theta> obs = logits_net c \<theta> obs"

definition log_prob_from_distribution :: "(action \<Rightarrow> real) \<Rightarrow> action \<Rightarrow> real" where
  "log_prob_from_distribution pi' act = log_prob pi' act"

definition forward ::
  "('e, 'g, 'p, 'q) collab \<Rightarrow> 'p \<Rightarrow> real list \<Rightarrow> action option \<Rightarrow> (action \<Rightarrow> real) \<times> real option" where
  "forward c \<theta> obs act =
     (let pi' = distribution c \<theta> obs;
          logp_a = (case act of None \<Rightarrow> None
                    | Some a \<Rightarrow> Some (log_prob_from_distribution pi' a))
      in (pi', logp_a))"

text \<open>
  \<^verbatim>\<open>MLPActorCritic.step\<close>.  The third component is \<^verbatim>\<open>None\<close> or a number, as the
  variable \<^verbatim>\<open>log_prob\<close> of the source.
\<close>

definition step ::
  "('e, 'g, 'p, 'q) collab \<Rightarrow> 'p \<Rightarrow> 'q \<Rightarrow> 'g \<Rightarrow> real list \<Rightarrow> (action \<times> real \<times> real option) \<times> 'g" where
  "step c \<theta> \<phi> g state =
     (let (distr, log_prob0) = forward c \<theta> state None;
          (act, g1) = sample c g distr;
          value_at_state = v_net c \<phi> state;
          (dist2, log_prob1) = forward c \<theta> state (Some act);
          (act2, g2) = sample c g1 distr
      in ((act2, value_at_state, log_prob1), g2))"

text \<open>
  Elementwise operations on two one-dimensional tensors: the lengths are equal, or one of
  them is 1 and that entry is broadcast.
\<close>

definition broadcastable :: "nat \<Rightarrow> nat \<Rightarrow> bool" where
  "broadcastable m n \<longleftrightarrow> m = n \<or> m = 1 \<or> n = 1"

definition bc_map2 :: "('a \<Rightarrow> 'b \<Rightarrow> 'c) \<Rightarrow> 'a list \<Rightarrow> 'b list \<Rightarrow> 'c list" where
  "bc_map2 f xs ys =
     (if length xs = length ys then map2 f xs ys
      else if length xs = 1 then map (f (hd xs)) ys
      else map (\<lambda>x. f x (hd ys)) xs)"

text \<open>
  The loss of \<^verbatim>\<open>Agent.pi_update\<close> as a function of the state of the policy side:
  \<^verbatim>\<open>dist, log_pb = self.ac.pi.forward(obs, act=act); g = phi*log_pb; loss = -g.mean()\<close>.
\<close>

definition pi_loss :: "('e, 'g, 'p, 'q) collab \<Rightarrow> batch \<Rightarrow> 'p \<Rightarrow> fval" where
  "pi_loss c data \<theta> =
     (let log_pb = bc_map2 (\<lambda>obs act. log_prob_from_distribution (distribution c \<theta> obs) act)
                     (data_obs data) (data_act data);
          g = bc_map2 fmul (data_phi data) (map Fin log_pb)
      in fneg (np_mean g))"

definition pi_update :: "('e, 'g, 'p, 'q) collab \<Rightarrow> 'p \<Rightarrow> batch \<Rightarrow> error + 'p" where
  "pi_update c \<theta> data =
     (let \<theta>1 = pi_zero_grad c \<theta>
      in if \<not> broadcastable (length (data_obs data)) (length (data_act data)) then Inl RuntimeError
         else if \<not> broadcastable (length (data_phi data))
                     (max (length (data_obs data)) (length (data_act data))) then Inl RuntimeError
         else let \<theta>2 = pi_backward c (pi_loss c data) \<theta>1
              in Inr (pi_opt_step c \<theta>2))"

text \<open>
  \<^verbatim>\<open>Agent.v_update\<close>: the gradients are zeroed once, then 100 times
  \<^verbatim>\<open>loss = MSELoss(v(obs), ret - phi); loss.backward(); v_optimizer.step()\<close>.
\<close>

definition v_loss :: "('e, 'g, 'p, 'q) collab \<Rightarrow> batch \<Rightarrow> 'q \<Rightarrow> fval" where
  "v_loss c data \<phi> =
     (let fwd = map (\<lambda>obs. Fin (v_net c \<phi> obs)) (data_obs data);
          target = bc_map2 fsub (map Fin (data_ret data)) (data_phi data)
      in np_mean (bc_map2 (\<lambda>x y. fmul (fsub x y) (fsub x y)) fwd target))"

definition v_update :: "('e, 'g, 'p, 'q) collab \<Rightarrow> 'q \<Rightarrow> batch \<Rightarrow> error + 'q" where
  "v_update c \<phi> data =
     (let \<phi>1 = v_zero_grad c \<phi>
      in if \<not> broadcastable (length (data_ret data)) (length (data_phi data)) then Inl RuntimeError
         else if \<not> broadcastable (length (data_obs data))
                     (max (length (data_ret data)) (length (data_phi data))) then Inl RuntimeError
         else Inr (((\<lambda>\<phi>'. v_opt_step c (v_backward c (v_loss c data) \<phi>')) ^^ 100) \<phi>1))"

text \<open>
  The calls that \<^verbatim>\<open>Agent.train\<close> makes on the buffer and on the two updates are
  recorded, in order, in a trace: a store with the cursor it found, an \<open>end_traj\<close> with
  the value it was given, a \<open>get\<close> with the cursor and the capacity it found.
\<close>

datatype event = EvStore nat | EvEndTraj real | EvGet nat nat | EvPiUpdate | EvVUpdate

text \<open>
  The same calls with their arguments (the two updates are given the batch that the
  preceding \<open>get\<close> returned).
\<close>

datatype call =
  CallStore "real list" action real real real | CallEndTraj real | CallGet
  | CallPiUpdate | CallVUpdate

record ('e, 'g, 'p, 'q) train_state =
  env :: 'e
  gen :: 'g
  ac_pi :: 'p
  ac_v :: 'q
  buf :: vpg_buffer
  state :: "real list"
  ep_ret :: real
  ep_len :: nat
  ep_returns :: "real list"
  trace :: "event list"
  calls :: "call list"

text \<open>One pass through the body of \<^verbatim>\<open>for t in range(steps_per_epoch)\<close>.\<close>

definition train_step ::
  "('e, 'g, 'p, 'q) collab \<Rightarrow> nat \<Rightarrow> nat \<Rightarrow> nat \<Rightarrow> ('e, 'g, 'p, 'q) train_state \<Rightarrow>
     error + ('e, 'g, 'p, 'q) train_state" where
  "train_step c steps_per_epoch max_ep_len t s =
     (let ((a, v, logp), g1) = step c (ac_pi s) (ac_v s) (gen s) (state s);
          ((next_state, reward, terminal, truncated), env1) = env_step c (env s) a;
          ep_ret1 = ep_ret s + reward;
          ep_len1 = ep_len s + 1
      in case logp of None \<Rightarrow> Inl TypeError | Some logp' \<Rightarrow>
         case store (buf s) (state s) a reward v logp' of Inl er \<Rightarrow> Inl er | Inr buf1 \<Rightarrow>
         let s1 = s\<lparr>env := env1, gen := g1, buf := buf1, state := next_state,
                     ep_ret := ep_ret1, ep_len := ep_len1,
                     trace := trace s @ [EvStore (ptr (buf s))],
                     calls := calls s @ [CallStore (state s) a reward v logp']\<rparr>;
             timeout = (ep_len1 = max_ep_len);
             epoch_ended = (int t = int steps_per_epoch - 1)
         in if terminal \<or> timeout \<or> epoch_ended then
              let (v', g2) = (if epoch_ended
                              then (let ((a2, v2, logp2), g2) =
                                          step c (ac_pi s1) (ac_v s1) (gen s1) (state s1)
                                    in (v2, g2))
                              else (0, gen s1));
                  ep_returns1 = (if timeout \<or> terminal then ep_returns s1 @ [ep_ret1]
                                 else ep_returns s1)
              in case end_traj (buf s1) v' of Inl er \<Rightarrow> Inl er | Inr buf2 \<Rightarrow>
                 let (state2, env2) = env_reset c (env s1)
                 in Inr (s1\<lparr>env := env2, gen := g2, buf := buf2, state := state2,
                            ep_ret := 0, ep_len := 0, ep_returns := ep_returns1,
                            trace := trace s1 @ [EvEndTraj v'],
                            calls := calls s1 @ [CallEndTraj v']\<rparr>)
            else Inr s1)"

text \<open>The passes \<open>t, t + 1, ..., t + n - 1\<close> of the inner loop.\<close>

primrec train_steps ::
  "('e, 'g, 'p, 'q) collab \<Rightarrow> nat \<Rightarrow> nat \<Rightarrow> nat \<Rightarrow> nat \<Rightarrow> ('e, 'g, 'p, 'q) train_state \<Rightarrow>
     error + ('e, 'g, 'p, 'q) train_state" where
  "train_steps c steps_per_epoch max_ep_len t 0 s = Inr s"
| "train_steps c steps_per_epoch max_ep_len t (Suc n) s =
     (case train_step c steps_per_epoch max_ep_len t s of
        Inl er \<Rightarrow> Inl er
      | Inr s' \<Rightarrow> train_steps c steps_per_epoch max_ep_len (Suc t) n s')"

text \<open>
  One pass through the body of \<^verbatim>\<open>for epoch in range(epochs)\<close> (the two
  \<^verbatim>\<open>print\<close> calls write to the console only).
\<close>

definition train_epoch ::
  "('e, 'g, 'p, 'q) collab \<Rightarrow> nat \<Rightarrow> nat \<Rightarrow> ('e, 'g, 'p, 'q) train_state \<Rightarrow>
     error + ('e, 'g, 'p, 'q) train_state" where
  "train_epoch c steps_per_epoch max_ep_len s =
     (case train_steps c steps_per_epoch max_ep_len 0 steps_per_epoch (s\<lparr>ep_returns := []\<rparr>) of
        Inl er \<Rightarrow> Inl er
      | Inr s1 \<Rightarrow>
     case get (buf s1) of
        Inl er \<Rightarrow> Inl er
      | Inr (buf2, data) \<Rightarrow>
     let s2 = s1\<lparr>buf := buf2,
                 trace := trace s1 @ [EvGet (ptr (buf s1)) (max_size (buf s1))],
                 calls := calls s1 @ [CallGet]\<rparr>
     in case pi_update c (ac_pi s2) data of
        Inl er \<Rightarrow> Inl er
      | Inr \<theta> \<Rightarrow>
     let s3 = s2\<lparr>ac_pi := \<theta>, trace := trace s2 @ [EvPiUpdate],
                 calls := calls s2 @ [CallPiUpdate]\<rparr>
     in case v_update c (ac_v s3) data of
        Inl er \<Rightarrow> Inl er
      | Inr \<phi> \<Rightarrow> Inr (s3\<lparr>ac_v := \<phi>, trace := trace s3 @ [EvVUpdate],
                        calls := calls s3 @ [CallVUpdate]\<rparr>))"

primrec train_epochs ::
  "('e, 'g, 'p, 'q) collab \<Rightarrow> nat \<Rightarrow> nat \<Rightarrow> nat \<Rightarrow> ('e, 'g, 'p, 'q) train_state \<Rightarrow>
     error + ('e, 'g, 'p, 'q) train_state" where
  "train_epochs c steps_per_epoch max_ep_len 0 s = Inr s"
| "train_epochs c steps_per_epoch max_ep_len (Suc n) s =
     (case train_epoch c steps_per_epoch max_ep_len s of
        Inl er \<Rightarrow> Inl er
      | Inr s' \<Rightarrow> train_epochs c steps_per_epoch max_ep_len n s')"

text \<open>
  \<^verbatim>\<open>Agent.train\<close> with its training parameters as arguments, from the state of the
  environment, of the random generator and of the two networks at the call.
\<close>

definition train_with ::
  "('e, 'g, 'p, 'q) collab \<Rightarrow> nat \<Rightarrow> nat \<Rightarrow> nat \<Rightarrow> real \<Rightarrow> real \<Rightarrow> 'e \<Rightarrow> 'g \<Rightarrow> 'p \<Rightarrow> 'q \<Rightarrow>
     error + (bool \<times> ('e, 'g, 'p, 'q) train_state)" where
  "train_with c steps_per_epoch epochs max_ep_len gamma' lam' env0 g0 \<theta>0 \<phi>0 =
     (let buf0 = VPGBuffer 8 steps_per_epoch gamma' lam';
          (state0, env1) = env_reset c env0;
          s0 = \<lparr>env = env1, gen = g0, ac_pi = \<theta>0, ac_v = \<phi>0, buf = buf0, state = state0,
                ep_ret = 0, ep_len = 0, ep_returns = [], trace = [], calls = []\<rparr>
      in case train_epochs c steps_per_epoch max_ep_len epochs s0 of
           Inl er \<Rightarrow> Inl er
         | Inr s \<Rightarrow> Inr (True, s))"

definition train ::
  "('e, 'g, 'p, 'q) collab \<Rightarrow> 'e \<Rightarrow> 'g \<Rightarrow> 'p \<Rightarrow> 'q \<Rightarrow> error + (bool \<times> ('e, 'g, 'p, 'q) train_state)" where
  "train c env0 g0 \<theta>0 \<phi>0 = train_with c 3000 50 300 (99 / 100) (97 / 100) env0 g0 \<theta>0 \<phi>0"

text \<open>
  The recorded calls made again, one after the other, on a buffer, the state of the
  policy side and the state of the value side: each call is the operation of the source
  on the state the calls before it left, an update takes the batch that the last \<open>get\<close>
  returned, and an error stops the run.  The result is the state after the last call with
  the events of the calls, each with the cursor (and capacity) the operation found.
\<close>

fun replay_call ::
  "('e, 'g, 'p, 'q) collab \<Rightarrow> vpg_buffer \<times> 'p \<times> 'q \<times> batch option \<Rightarrow> call \<Rightarrow>
     error + ((vpg_buffer \<times> 'p \<times> 'q \<times> batch option) \<times> event)" where
  "replay_call c (b, \<theta>, \<phi>, data) (CallStore obs act rew val logp) =
     (case store b obs act rew val logp of
        Inl er \<Rightarrow> Inl er
      | Inr b' \<Rightarrow> Inr ((b', \<theta>, \<phi>, data), EvStore (ptr b)))"
| "replay_call c (b, \<theta>, \<phi>, data) (CallEndTraj v) =
     (case end_traj b v of
        Inl er \<Rightarrow> Inl er
      | Inr b' \<Rightarrow> Inr ((b', \<theta>, \<phi>, data), EvEndTraj v))"
| "replay_call c (b, \<theta>, \<phi>, data) CallGet =
     (case get b of
        Inl er \<Rightarrow> Inl er
      | Inr (b', d) \<Rightarrow> Inr ((b', \<theta>, \<phi>, Some d), EvGet (ptr b) (max_size b)))"
| "replay_call c (b, \<theta>, \<phi>, data) CallPiUpdate =
     (case data of
        None \<Rightarrow> Inl TypeError
      | Some d \<Rightarrow>
          (case pi_update c \<theta> d of
             Inl er \<Rightarrow> Inl er
           | Inr \<theta>' \<Rightarrow> Inr ((b, \<theta>', \<phi>, data), EvPiUpdate)))"
| "replay_call c (b, \<theta>, \<phi>, data) CallVUpdate =
     (case data of
        None \<Rightarrow> Inl TypeError
      | Some d \<Rightarrow>
          (case v_update c \<phi> d of
             Inl er \<Rightarrow> Inl er
           | Inr \<phi>' \<Rightarrow> Inr ((b, \<theta>, \<phi>', data), EvVUpdate)))"

fun replay ::
  "('e, 'g, 'p, 'q) collab \<Rightarrow> vpg_buffer \<times> 'p \<times> 'q \<times> batch option \<Rightarrow> call list \<Rightarrow>
     error + ((vpg_buffer \<times> 'p \<times> 'q \<times> batch option) \<times> event list)" where
  "replay c st [] = Inr (st, [])"
| "replay c st (x # xs) =
     (case replay_call c st x of
        Inl er \<Rightarrow> Inl er
      | Inr (st1, ev) \<Rightarrow>
          (case replay c st1 xs of
             Inl er \<Rightarrow> Inl er
           | Inr (st2, evs) \<Rightarrow> Inr (st2, ev # evs)))"

text \<open>
  The environment returns observations of length \<open>d\<close>, from \<open>reset\<close> and from
  \<open>step\<close>.
\<close>

definition env_obs_dim :: "('e, 'g, 'p, 'q) collab \<Rightarrow> nat \<Rightarrow> bool" where
  "env_obs_dim c d \<longleftrightarrow>
     (\<forall>e. length (fst (env_reset c e)) = d) \<and>
     (\<forall>e a. length (fst (fst (env_step c e a))) = d)"

text \<open>
  A small set of collaborators on which the model is evaluated: the policy prefers
  action 1, the value network answers 5 everywhere, the sampler reads its draws from a
  list, an optimiser step is counted, and the environment counts its steps, pays reward 1
  and reports termination when its counter is 7.
\<close>

definition example_collab :: "(nat, action list, nat, nat) collab" where
  "example_collab =
     \<lparr>logits_net = (\<lambda>\<theta> obs a. if a = A1 then 1 else 0),
      v_net = (\<lambda>\<phi> obs. 5),
      sample = (\<lambda>g logits. case g of [] \<Rightarrow> (A0, []) | a # g' \<Rightarrow> (a, g')),
      pi_zero_grad = (\<lambda>\<theta>. \<theta>),
      pi_backward = (\<lambda>loss \<theta>. \<theta>),
      pi_opt_step = Suc,
      v_zero_grad = (\<lambda>\<phi>. \<phi>),
      v_backward = (\<lambda>loss \<phi>. \<phi>),
      v_opt_step = Suc,
      env_reset = (\<lambda>e. ([0], e)),
      env_step = (\<lambda>e a. (([real e], 1, e = 7, False), Suc e))\<rparr>"

text \<open>The same collaborators with an environment whose observations have length 8.\<close>

definition example_collab8 :: "(nat, action list, nat, nat) collab" where
  "example_collab8 =
     example_collab
       \<lparr>env_reset := (\<lambda>e. (replicate 8 0, e)),
        env_step := (\<lambda>e a. ((replicate 8 (real e), 1, e = 7, False), Suc e))\<rparr>"

definition example_state :: "nat \<Rightarrow> nat \<Rightarrow> (nat, action list, nat, nat) train_state" where
  "example_state e cursor =
     \<lparr>env = e, gen = [], ac_pi = 0, ac_v = 0,
      buf = (VPGBuffer 1 3 (99 / 100) (97 / 100))\<lparr>ptr := cursor\<rparr>,
      state = [0], ep_ret = 0, ep_len = 0, ep_returns = [], trace = [], calls = []\<rparr>"

section \<open>Properties of the actor-critic and of the training loop\<close>

lemma forward_None: "forward c \<theta> obs None = (logits_net c \<theta> obs, None)"
  by (simp add: forward_def distribution_def)

lemma forward_Some:
  "forward c \<theta> obs (Some a) = (logits_net c \<theta> obs, Some (log_prob (logits_net c \<theta> obs) a))"
  by (simp add: forward_def distribution_def log_prob_from_distribution_def Let_def)

lemma step_eq:
  "step c \<theta> \<phi> g obs =
     ((fst (sample c (snd (sample c g (logits_net c \<theta> obs))) (logits_net c \<theta> obs)),
       v_net c \<phi> obs,
       Some (log_prob (logits_net c \<theta> obs) (fst (sample c g (logits_net c \<theta> obs))))),
      snd (sample c (snd (sample c g (logits_net c \<theta> obs))) (logits_net c \<theta> obs)))"
  by (simp add: step_def forward_None forward_Some Let_def split_beta)

text \<open>
  C4 fails on the code.  \<open>step\<close> draws two samples from the distribution: the
  log-probability it returns is that of the first draw, the action it returns is the
  second draw.  With the draws 0 and then 1 from a policy that prefers action 1, the
  returned action is 1 and the returned log-probability is that of action 0, which is
  not the log-probability of action 1.
\<close>

theorem step_returns_logp_of_first_draw:
  "step example_collab 0 0 [A0, A1] [0] =
     ((A1, 5, Some (log_prob (logits_net example_collab 0 [0]) A0)), []) \<and>
   log_prob (logits_net example_collab 0 [0]) A0 \<noteq> log_prob (logits_net example_collab 0 [0]) A1"
  by (simp add: step_eq example_collab_def log_prob_def)

text \<open>
  C3 fails on the code.  In a pass of the inner loop that is not the last of the epoch
  (\<open>t = 0\<close> of 3) and in which the episode reaches \<open>max_ep_len = 1\<close> without the
  environment reporting termination, \<open>end_traj\<close> is given 0, although the value network
  answers 5 at the observation reached.  In the last pass of the epoch (\<open>t = 2\<close> of 3),
  when the environment does report termination, \<open>end_traj\<close> is given the value estimate
  5 at the observation reached.
\<close>

theorem train_step_bootstrap:
  "map_sum id trace (train_step example_collab 3 1 0 (example_state 0 0)) =
     Inr [EvStore 0, EvEndTraj 0] \<and>
   env_step example_collab 0 A0 = (([0], 1, False, False), 1) \<and>
   v_net example_collab 0 [0] = 5 \<and>
   map_sum id trace (train_step example_collab 3 300 2 (example_state 7 2)) =
     Inr [EvStore 2, EvEndTraj 5] \<and>
   env_step example_collab 7 A0 = (([7], 1, True, False), 8)"
proof -
  have u: "replicate 3 x = [x, x, x]" for x :: 'a
    by (simp add: numeral_3_eq_3)
  have dc: "discount_cumsum [x] d = [x]" for x d
    by (simp add: discount_cumsum_Cons discount_cumsum_Nil)
  have a: "map_sum id trace (train_step example_collab 3 1 0 (example_state 0 0)) =
             Inr [EvStore 0, EvEndTraj 0]"
    by (simp add: train_step_def step_eq example_collab_def example_state_def VPGBuffer_def u
        store_def np_set_def np_set_row_def row_fits_def broadcast_row_def end_traj_def np_slice_def np_binop_def np_set_slice_def dc Let_def)
  have b: "map_sum id trace (train_step example_collab 3 300 2 (example_state 7 2)) =
             Inr [EvStore 2, EvEndTraj 5]"
    by (simp add: train_step_def step_eq example_collab_def example_state_def VPGBuffer_def u
        store_def np_set_def np_set_row_def row_fits_def broadcast_row_def end_traj_def np_slice_def np_binop_def np_set_slice_def
        length_discount_cumsum Let_def)
  show ?thesis
    using a b by (simp add: example_collab_def)
qed

text \<open>
  The shape of the trace of one epoch with \<open>n\<close> steps: the stores, with the cursors
  \<open>0, ..., n - 1\<close> in this order, and \<open>end_traj\<close> calls between them; when \<open>n\<close> is not 0
  the last two calls are the store at cursor \<open>n - 1\<close> and an \<open>end_traj\<close>; then \<open>get\<close>,
  called with cursor and capacity both \<open>n\<close>, the policy update and the value update.
\<close>

fun is_EvStore :: "event \<Rightarrow> bool" where
  "is_EvStore (EvStore _) = True"
| "is_EvStore _ = False"

fun is_EvEndTraj :: "event \<Rightarrow> bool" where
  "is_EvEndTraj (EvEndTraj _) = True"
| "is_EvEndTraj _ = False"

definition epoch_block :: "nat \<Rightarrow> event list \<Rightarrow> bool" where
  "epoch_block n evs \<longleftrightarrow>
     3 \<le> length evs \<and>
     drop (length evs - 3) evs = [EvGet n n, EvPiUpdate, EvVUpdate] \<and>
     (let body = take (length evs - 3) evs
      in filter is_EvStore body = map EvStore [0..<n] \<and>
         list_all (\<lambda>e. is_EvStore e \<or> is_EvEndTraj e) body \<and>
         (0 < n \<longrightarrow> 2 \<le> length body \<and> body ! (length body - 2) = EvStore (n - 1) \<and>
            is_EvEndTraj (last body)))"

text \<open>The state of the buffer before pass \<open>t\<close> of an epoch of \<open>n\<close> steps.\<close>

definition train_inv :: "nat \<Rightarrow> nat \<Rightarrow> ('e, 'g, 'p, 'q) train_state \<Rightarrow> bool" where
  "train_inv n t s \<longleftrightarrow> wf_buffer (buf s) \<and> max_size (buf s) = n \<and> ptr (buf s) = t"

lemma epoch_ended_iff: "(int t = int n - 1) = (Suc t = n)"
  by auto

text \<open>
  The rows of the observation array and the current observation have length \<open>d\<close>.
\<close>

definition obs_inv :: "nat \<Rightarrow> ('e, 'g, 'p, 'q) train_state \<Rightarrow> bool" where
  "obs_inv d s \<longleftrightarrow> (\<forall>row\<in>set (obs_buf (buf s)). length row = d) \<and> length (state s) = d"

lemma end_traj_obs_buf:
  assumes "wf_buffer b" and "end_traj b v = Inr b'"
  shows "obs_buf b' = obs_buf b"
  using assms(2) unfolding end_traj_wf [OF assms(1)] by auto

lemma replay_append:
  "replay c st xs = Inr (st1, e1) \<Longrightarrow> replay c st1 ys = Inr (st2, e2) \<Longrightarrow>
     replay c st (xs @ ys) = Inr (st2, e1 @ e2)"
proof (induction xs arbitrary: st e1)
  case Nil
  then show ?case by simp
next
  case (Cons x xs)
  from Cons.prems(1) obtain sta ev evs where x: "replay_call c st x = Inr (sta, ev)"
    and xs: "replay c sta xs = Inr (st1, evs)" and e1: "e1 = ev # evs"
    by (auto split: sum.splits)
  from Cons.IH [OF xs Cons.prems(2)] x e1 show ?case
    by simp
qed

lemma train_step_ok:
  assumes "train_inv n t s" and "t < n" and "obs_inv d s" and "env_obs_dim c d"
  shows "\<exists>s' mid cs. train_step c n m t s = Inr s' \<and> train_inv n (Suc t) s' \<and> obs_inv d s' \<and>
           trace s' = trace s @ EvStore t # mid \<and>
           (mid = [] \<or> (\<exists>v. mid = [EvEndTraj v])) \<and> (Suc t = n \<longrightarrow> mid \<noteq> []) \<and>
           ac_pi s' = ac_pi s \<and> ac_v s' = ac_v s \<and> calls s' = calls s @ cs \<and>
           (\<forall>data. replay c (buf s, ac_pi s, ac_v s, data) cs =
              Inr ((buf s', ac_pi s', ac_v s', data), EvStore t # mid))"
proof -
  let ?l = "logits_net c (ac_pi s) (state s)"
  let ?a = "fst (sample c (snd (sample c (gen s) ?l)) ?l)"
  let ?r = "fst (env_step c (env s) ?a)"
  let ?next = "fst ?r"
  let ?terminal = "fst (snd (snd ?r))"
  let ?v' = "if Suc t = n then v_net c (ac_v s) ?next else 0"
  let ?row = "obs_buf (buf s) ! ptr (buf s)"
  have wf: "wf_buffer (buf s)" and lt: "ptr (buf s) < max_size (buf s)"
    and pt: "ptr (buf s) = t" and ms: "max_size (buf s) = n"
    using assms(1,2) by (simp_all add: train_inv_def)
  have rows: "\<forall>row\<in>set (obs_buf (buf s)). length row = d" and ls: "length (state s) = d"
    using assms(3) by (simp_all add: obs_inv_def)
  have "ptr (buf s) < length (obs_buf (buf s))"
    using wf lt by (simp add: wf_buffer_def)
  then have lrow: "length ?row = d"
    using rows by simp
  then have fit: "row_fits (state s) ?row"
    using ls by (simp add: row_fits_def)
  define b1 where "b1 = (buf s)\<lparr>obs_buf := (obs_buf (buf s))[ptr (buf s) := broadcast_row (state s) ?row],
      act_buf := (act_buf (buf s))[ptr (buf s) := ?a],
      rew_buf := (rew_buf (buf s))[ptr (buf s) := fst (snd ?r)],
      val_buf := (val_buf (buf s))[ptr (buf s) := v_net c (ac_v s) (state s)],
      logp_buf := (logp_buf (buf s))[ptr (buf s) := log_prob ?l (fst (sample c (gen s) ?l))],
      ptr := ptr (buf s) + 1\<rparr>"
  have b1: "store (buf s) (state s) ?a (fst (snd ?r)) (v_net c (ac_v s) (state s))
              (log_prob ?l (fst (sample c (gen s) ?l))) = Inr b1"
    unfolding b1_def by (rule store_wf [OF wf lt fit])
  have "set (obs_buf b1) \<subseteq> insert (state s) (set (obs_buf (buf s)))"
    using lrow ls by (simp add: b1_def broadcast_row_def set_update_subset_insert)
  then have rows1: "\<forall>row\<in>set (obs_buf b1). length row = d"
    using rows ls by auto
  from store_preserves_wf [OF wf b1] pt ms
  have w1: "wf_buffer b1" and p1: "ptr b1 = Suc t" and m1: "max_size b1 = n"
    by simp_all
  obtain b2 where b2: "end_traj b1 ?v' = Inr b2" and w2: "wf_buffer b2"
    and p2: "ptr b2 = ptr b1" and m2: "max_size b2 = max_size b1"
    using end_traj_preserves_wf [OF w1, of ?v'] by blast
  have rows2: "\<forall>row\<in>set (obs_buf b2). length row = d"
    using end_traj_obs_buf [OF w1 b2] rows1 by simp
  have b2a: "Suc t = n \<Longrightarrow> end_traj b1 (v_net c (ac_v s) ?next) = Inr b2"
    and b2b: "Suc t \<noteq> n \<Longrightarrow> end_traj b1 0 = Inr b2"
    using b2 by simp_all
  have ln: "length ?next = d" and lr: "length (fst (env_reset c e)) = d" for e
    using assms(4) by (simp_all add: env_obs_dim_def)
  show ?thesis
  proof (cases "?terminal \<or> Suc (ep_len s) = m \<or> Suc t = n")
    case False
    then show ?thesis
      using b1 w1 p1 m1 pt rows1 ln
      by (simp add: train_step_def step_eq split_beta Let_def epoch_ended_iff train_inv_def
          obs_inv_def)
  next
    case True
    show ?thesis
    proof (cases "Suc t = n")
      case last: True
      show ?thesis
        using last b1 b2a [OF last] w2 p2 m2 p1 m1 pt rows2 lr
        by (simp add: train_step_def step_eq split_beta Let_def epoch_ended_iff train_inv_def
            obs_inv_def)
    next
      case notlast: False
      show ?thesis
        using True notlast b1 b2b [OF notlast] w2 p2 m2 p1 m1 pt rows2 lr
        by (simp add: train_step_def step_eq split_beta Let_def epoch_ended_iff train_inv_def
            obs_inv_def)
    qed
  qed
qed

lemma train_steps_ok:
  "train_inv N t s \<Longrightarrow> t + n = N \<Longrightarrow> obs_inv d s \<Longrightarrow> env_obs_dim c d \<Longrightarrow>
     \<exists>s' body cs. train_steps c N m t n s = Inr s' \<and> train_inv N N s' \<and> obs_inv d s' \<and>
       trace s' = trace s @ body \<and>
       filter is_EvStore body = map EvStore [t..<N] \<and>
       list_all (\<lambda>e. is_EvStore e \<or> is_EvEndTraj e) body \<and>
       (0 < n \<longrightarrow> (\<exists>pre v. body = pre @ [EvStore (N - 1), EvEndTraj v])) \<and>
       ac_pi s' = ac_pi s \<and> ac_v s' = ac_v s \<and> calls s' = calls s @ cs \<and>
       (\<forall>data. replay c (buf s, ac_pi s, ac_v s, data) cs =
          Inr ((buf s', ac_pi s', ac_v s', data), body))"
proof (induction n arbitrary: t s)
  case 0
  then show ?case by simp
next
  case (Suc n)
  then have lt: "t < N" by simp
  from train_step_ok [OF Suc.prems(1) lt Suc.prems(3,4), of m]
  obtain s1 mid cs1 where s1: "train_step c N m t s = Inr s1" and inv1: "train_inv N (Suc t) s1"
    and oi1: "obs_inv d s1"
    and tr1: "trace s1 = trace s @ EvStore t # mid"
    and mid: "mid = [] \<or> (\<exists>v. mid = [EvEndTraj v])" and lastmid: "Suc t = N \<longrightarrow> mid \<noteq> []"
    and p1: "ac_pi s1 = ac_pi s" "ac_v s1 = ac_v s"
    and c1: "calls s1 = calls s @ cs1"
    and r1: "\<forall>data. replay c (buf s, ac_pi s, ac_v s, data) cs1 =
               Inr ((buf s1, ac_pi s1, ac_v s1, data), EvStore t # mid)"
    by blast
  have "Suc t + n = N" using Suc.prems(2) by simp
  from Suc.IH [OF inv1 this oi1 Suc.prems(4)]
  obtain s' body' cs' where s': "train_steps c N m (Suc t) n s1 = Inr s'"
    and inv': "train_inv N N s'" and oi': "obs_inv d s'"
    and tr': "trace s' = trace s1 @ body'"
    and st': "filter is_EvStore body' = map EvStore [Suc t..<N]"
    and all': "list_all (\<lambda>e. is_EvStore e \<or> is_EvEndTraj e) body'"
    and last': "0 < n \<longrightarrow> (\<exists>pre v. body' = pre @ [EvStore (N - 1), EvEndTraj v])"
    and p': "ac_pi s' = ac_pi s1" "ac_v s' = ac_v s1"
    and c': "calls s' = calls s1 @ cs'"
    and r': "\<forall>data. replay c (buf s1, ac_pi s1, ac_v s1, data) cs' =
               Inr ((buf s', ac_pi s', ac_v s', data), body')"
    by blast
  let ?body = "EvStore t # mid @ body'"
  have run: "train_steps c N m t (Suc n) s = Inr s'"
    using s1 s' by simp
  have tr: "trace s' = trace s @ ?body"
    using tr1 tr' by simp
  have cl: "calls s' = calls s @ (cs1 @ cs')"
    using c1 c' by simp
  have rp: "replay c (buf s, ac_pi s, ac_v s, data) (cs1 @ cs') =
              Inr ((buf s', ac_pi s', ac_v s', data), ?body)" for data
    using replay_append [OF r1 [rule_format, of data] r' [rule_format, of data]] by simp
  have fmid: "filter is_EvStore mid = []" and amid: "list_all (\<lambda>e. is_EvStore e \<or> is_EvEndTraj e) mid"
    using mid by auto
  have st: "filter is_EvStore ?body = map EvStore [t..<N]"
    using st' fmid lt by (simp add: upt_conv_Cons)
  have al: "list_all (\<lambda>e. is_EvStore e \<or> is_EvEndTraj e) ?body"
    using all' amid by simp
  have last: "\<exists>pre v. ?body = pre @ [EvStore (N - 1), EvEndTraj v]"
  proof (cases n)
    case 0
    then have "s' = s1" using s' by simp
    then have nil: "body' = []" using tr' by simp
    from 0 Suc.prems(2) have e: "Suc t = N" by simp
    with lastmid mid obtain v where "mid = [EvEndTraj v]" by auto
    then have "?body = [] @ [EvStore (N - 1), EvEndTraj v]"
      using nil e by auto
    then show ?thesis by blast
  next
    case (Suc k)
    with last' obtain pre v where "body' = pre @ [EvStore (N - 1), EvEndTraj v]" by auto
    then have "?body = (EvStore t # mid @ pre) @ [EvStore (N - 1), EvEndTraj v]" by simp
    then show ?thesis by blast
  qed
  show ?case
    using run inv' oi' tr st al last p1 p' cl rp
    by (intro exI [of _ s'] exI [of _ ?body] exI [of _ "cs1 @ cs'"]) simp
qed

lemma epoch_blockI:
  assumes "filter is_EvStore body = map EvStore [0..<n]"
    and "list_all (\<lambda>e. is_EvStore e \<or> is_EvEndTraj e) body"
    and "0 < n \<longrightarrow> (\<exists>pre v. body = pre @ [EvStore (n - 1), EvEndTraj v])"
  shows "epoch_block n (body @ [EvGet n n, EvPiUpdate, EvVUpdate])"
proof -
  have "2 \<le> length body \<and> body ! (length body - 2) = EvStore (n - 1) \<and> is_EvEndTraj (last body)"
    if "0 < n"
  proof -
    from that assms(3) obtain pre v where b: "body = pre @ [EvStore (n - 1), EvEndTraj v]"
      by blast
    then show ?thesis by (simp add: nth_append)
  qed
  then show ?thesis
    using assms(1,2) by (simp add: epoch_block_def)
qed

lemma pi_update_ok:
  "length (data_obs d) = length (data_act d) \<Longrightarrow> length (data_phi d) = length (data_act d) \<Longrightarrow>
     pi_update c \<theta> d = Inr (pi_opt_step c (pi_backward c (pi_loss c d) (pi_zero_grad c \<theta>)))"
  by (simp add: pi_update_def broadcastable_def Let_def)

lemma v_update_ok:
  "length (data_obs d) = length (data_ret d) \<Longrightarrow> length (data_phi d) = length (data_ret d) \<Longrightarrow>
     \<exists>\<phi>'. v_update c \<phi> d = Inr \<phi>'"
  by (simp add: v_update_def broadcastable_def Let_def)

lemma train_epoch_ok:
  assumes "train_inv N 0 s" and "obs_inv d s" and "env_obs_dim c d"
  shows "\<exists>s' blk s1 b' dd cs. train_epoch c N m s = Inr s' \<and> train_inv N 0 s' \<and> obs_inv d s' \<and>
           trace s' = trace s @ blk \<and> epoch_block N blk \<and>
           train_steps c N m 0 N (s\<lparr>ep_returns := []\<rparr>) = Inr s1 \<and>
           get (buf s1) = Inr (b', dd) \<and> pi_update c (ac_pi s) dd = Inr (ac_pi s') \<and>
           calls s' = calls s @ cs \<and>
           (\<forall>data. replay c (buf s, ac_pi s, ac_v s, data) cs =
              Inr ((buf s', ac_pi s', ac_v s', Some dd), blk))"
proof -
  let ?s0 = "s\<lparr>ep_returns := []\<rparr>"
  have inv0: "train_inv N 0 ?s0" and oi0: "obs_inv d ?s0"
    using assms(1,2) by (simp_all add: train_inv_def obs_inv_def)
  from train_steps_ok [OF inv0 _ oi0 assms(3), of N m]
  obtain s1 body cs1 where s1: "train_steps c N m 0 N ?s0 = Inr s1" and inv1: "train_inv N N s1"
    and oi1: "obs_inv d s1"
    and tr1: "trace s1 = trace s @ body"
    and st: "filter is_EvStore body = map EvStore [0..<N]"
    and al: "list_all (\<lambda>e. is_EvStore e \<or> is_EvEndTraj e) body"
    and last: "0 < N \<longrightarrow> (\<exists>pre v. body = pre @ [EvStore (N - 1), EvEndTraj v])"
    and p1: "ac_pi s1 = ac_pi s" "ac_v s1 = ac_v s"
    and c1: "calls s1 = calls s @ cs1"
    and r1: "\<forall>data. replay c (buf s, ac_pi s, ac_v s, data) cs1 =
               Inr ((buf s1, ac_pi s1, ac_v s1, data), body)"
    by auto
  have wf1: "wf_buffer (buf s1)" and full: "ptr (buf s1) = max_size (buf s1)"
    and pN: "ptr (buf s1) = N" and mN: "max_size (buf s1) = N"
    using inv1 by (simp_all add: train_inv_def)
  obtain b' dd where g: "get (buf s1) = Inr (b', dd)"
    and d: "data_obs dd = obs_buf (buf s1)" "data_act dd = act_buf (buf s1)"
           "data_ret dd = ret_buf (buf s1)" "length (data_phi dd) = length (phi_buf (buf s1))"
    and ob: "obs_buf b' = obs_buf (buf s1)"
    using get_full [OF full] by simp
  from get_preserves_wf [OF wf1 g] mN
  have wfb: "wf_buffer b'" "ptr b' = 0" "max_size b' = N"
    by simp_all
  have len: "length (data_obs dd) = length (data_act dd)" "length (data_phi dd) = length (data_act dd)"
            "length (data_obs dd) = length (data_ret dd)" "length (data_phi dd) = length (data_ret dd)"
    using d wf1 by (simp_all add: wf_buffer_def)
  note pu = pi_update_ok [OF len(1,2), of c "ac_pi s"]
  obtain \<phi>' where vu: "v_update c (ac_v s) dd = Inr \<phi>'"
    using v_update_ok [OF len(3,4), of c "ac_v s"] by blast
  let ?\<theta>' = "pi_opt_step c (pi_backward c (pi_loss c dd) (pi_zero_grad c (ac_pi s)))"
  let ?blk = "body @ [EvGet N N, EvPiUpdate, EvVUpdate]"
  let ?cs = "cs1 @ [CallGet, CallPiUpdate, CallVUpdate]"
  let ?s' = "s1\<lparr>buf := b', trace := trace s @ ?blk, calls := calls s @ ?cs,
                ac_pi := ?\<theta>', ac_v := \<phi>'\<rparr>"
  have run: "train_epoch c N m s = Inr ?s'"
    using s1 g pu vu p1 tr1 c1 pN mN by (simp add: train_epoch_def Let_def)
  have inv': "train_inv N 0 ?s'"
    using wfb by (simp add: train_inv_def)
  have oi': "obs_inv d ?s'"
    using oi1 ob by (simp add: obs_inv_def)
  have blk: "epoch_block N ?blk"
    using st al last by (rule epoch_blockI)
  have tail: "replay c (buf s1, ac_pi s1, ac_v s1, data) [CallGet, CallPiUpdate, CallVUpdate] =
                Inr ((b', ?\<theta>', \<phi>', Some dd), [EvGet N N, EvPiUpdate, EvVUpdate])" for data
    using g pu vu p1 pN mN by simp
  have rp: "replay c (buf s, ac_pi s, ac_v s, data) ?cs =
              Inr ((buf ?s', ac_pi ?s', ac_v ?s', Some dd), ?blk)" for data
    using replay_append [OF r1 [rule_format, of data] tail [of data]] by simp
  show ?thesis
    using run inv' oi' blk s1 g pu rp
    by (intro exI [of _ ?s'] exI [of _ ?blk] exI [of _ s1] exI [of _ b'] exI [of _ dd]
        exI [of _ ?cs]) simp
qed

lemma train_epochs_ok:
  "train_inv N 0 s \<Longrightarrow> obs_inv d s \<Longrightarrow> env_obs_dim c d \<Longrightarrow>
     \<exists>s' blocks cs. train_epochs c N m E s = Inr s' \<and> train_inv N 0 s' \<and> obs_inv d s' \<and>
       trace s' = trace s @ concat blocks \<and> length blocks = E \<and>
       (\<forall>blk\<in>set blocks. epoch_block N blk) \<and> calls s' = calls s @ cs \<and>
       (\<forall>data. \<exists>data'. replay c (buf s, ac_pi s, ac_v s, data) cs =
          Inr ((buf s', ac_pi s', ac_v s', data'), concat blocks))"
proof (induction E arbitrary: s)
  case 0
  then show ?case by simp
next
  case (Suc E)
  from train_epoch_ok [OF Suc.prems, of m]
  obtain s1 blk dd cs1 where s1: "train_epoch c N m s = Inr s1" and inv1: "train_inv N 0 s1"
    and oi1: "obs_inv d s1"
    and tr1: "trace s1 = trace s @ blk" and blk: "epoch_block N blk"
    and c1: "calls s1 = calls s @ cs1"
    and r1: "\<forall>data. replay c (buf s, ac_pi s, ac_v s, data) cs1 =
               Inr ((buf s1, ac_pi s1, ac_v s1, Some dd), blk)"
    by blast
  from Suc.IH [OF inv1 oi1 Suc.prems(3)]
  obtain s' blocks cs' where s': "train_epochs c N m E s1 = Inr s'" and inv': "train_inv N 0 s'"
    and oi': "obs_inv d s'"
    and tr': "trace s' = trace s1 @ concat blocks" and len: "length blocks = E"
    and all: "\<forall>b\<in>set blocks. epoch_block N b"
    and c': "calls s' = calls s1 @ cs'"
    and r': "\<forall>data. \<exists>data'. replay c (buf s1, ac_pi s1, ac_v s1, data) cs' =
               Inr ((buf s', ac_pi s', ac_v s', data'), concat blocks)"
    by blast
  have rp: "\<exists>data'. replay c (buf s, ac_pi s, ac_v s, data) (cs1 @ cs') =
              Inr ((buf s', ac_pi s', ac_v s', data'), concat (blk # blocks))" for data
  proof -
    from r' obtain data' where "replay c (buf s1, ac_pi s1, ac_v s1, Some dd) cs' =
               Inr ((buf s', ac_pi s', ac_v s', data'), concat blocks)"
      by blast
    from replay_append [OF r1 [rule_format, of data] this] show ?thesis
      by auto
  qed
  show ?case
    using s1 s' inv' oi' tr1 tr' len all blk c1 c' rp
    by (intro exI [of _ s'] exI [of _ "blk # blocks"] exI [of _ "cs1 @ cs'"]) simp
qed

lemma train_with_ok:
  assumes "env_obs_dim c 8"
  shows "\<exists>s blocks data. train_with c N E m g l env0 g0 \<theta>0 \<phi>0 = Inr (True, s) \<and>
     trace s = concat blocks \<and> length blocks = E \<and> (\<forall>blk\<in>set blocks. epoch_block N blk) \<and>
     replay c (VPGBuffer 8 N g l, \<theta>0, \<phi>0, None) (calls s) =
       Inr ((buf s, ac_pi s, ac_v s, data), trace s)"
proof -
  let ?s0 = "\<lparr>env = snd (env_reset c env0), gen = g0, ac_pi = \<theta>0, ac_v = \<phi>0,
              buf = VPGBuffer 8 N g l, state = fst (env_reset c env0),
              ep_ret = 0, ep_len = 0, ep_returns = [], trace = [], calls = []\<rparr>"
  have inv: "train_inv N 0 ?s0"
    by (simp add: train_inv_def wf_VPGBuffer) (simp add: VPGBuffer_def)
  have oi: "obs_inv 8 ?s0"
    using assms by (simp add: obs_inv_def env_obs_dim_def VPGBuffer_def)
  from train_epochs_ok [OF inv oi assms, of m E]
  obtain s blocks cs where run: "train_epochs c N m E ?s0 = Inr s" and tr: "trace s = concat blocks"
    and len: "length blocks = E" and all: "\<forall>blk\<in>set blocks. epoch_block N blk"
    and cl: "calls s = cs"
    and rp: "\<forall>data. \<exists>data'. replay c (VPGBuffer 8 N g l, \<theta>0, \<phi>0, data) cs =
               Inr ((buf s, ac_pi s, ac_v s, data'), concat blocks)"
    by auto
  from rp obtain data where "replay c (VPGBuffer 8 N g l, \<theta>0, \<phi>0, None) cs =
               Inr ((buf s, ac_pi s, ac_v s, data), concat blocks)"
    by blast
  then show ?thesis
    using run tr len all cl
    by (intro exI [of _ s] exI [of _ blocks] exI [of _ data])
       (simp add: train_with_def split_beta Let_def)
qed

text \<open>
  C9.  For every sampler, pair of networks and optimisers, for every environment whose
  observations have the length 8 of a row of the buffer, whatever rewards and
  termination flags it returns, and for every positive number of steps per epoch, every
  number of epochs and every \<open>max_ep_len\<close>, \<open>train\<close> returns \<open>True\<close>, and the calls it
  recorded, made again in the recorded order on the fresh buffer and the initial
  networks, all succeed and give the buffer and the networks that \<open>train\<close> ends with,
  together with the events of its trace.  The trace is one block per epoch, where a
  block is: the stores, exactly \<open>steps_per_epoch\<close> of them, finding the cursors
  \<open>0, ..., steps_per_epoch - 1\<close> in this order, with \<open>end_traj\<close> calls between them and
  nothing else; the store of the last step followed by an \<open>end_traj\<close>; then \<open>get\<close>,
  which finds the cursor equal to the capacity, then the policy update, then the value
  update.  This holds for \<open>train\<close> as the source fixes its parameters (3000 steps, 50
  epochs).  On a buffer in a state the class can reach \<open>store\<close> moves the cursor up by
  one, \<open>end_traj\<close> leaves it, and \<open>get\<close> succeeds only with the cursor at the capacity
  and is the operation that sets it to 0.
\<close>

theorem train_epoch_sequence:
  assumes "env_obs_dim c 8" and "0 < N"
  shows
  "(\<exists>s blocks data. train_with c N E m g l env0 g0 \<theta>0 \<phi>0 = Inr (True, s) \<and>
      trace s = concat blocks \<and> length blocks = E \<and> (\<forall>blk\<in>set blocks. epoch_block N blk) \<and>
      replay c (VPGBuffer 8 N g l, \<theta>0, \<phi>0, None) (calls s) =
        Inr ((buf s, ac_pi s, ac_v s, data), trace s)) \<and>
   (\<exists>s blocks data. train c env0 g0 \<theta>0 \<phi>0 = Inr (True, s) \<and>
      trace s = concat blocks \<and> length blocks = 50 \<and> (\<forall>blk\<in>set blocks. epoch_block 3000 blk) \<and>
      replay c (VPGBuffer 8 3000 (99 / 100) (97 / 100), \<theta>0, \<phi>0, None) (calls s) =
        Inr ((buf s, ac_pi s, ac_v s, data), trace s)) \<and>
   (\<forall>b b' obs act rew val logp.
      wf_buffer b \<and> store b obs act rew val logp = Inr b' \<longrightarrow> ptr b' = ptr b + 1) \<and>
   (\<forall>b b' v. wf_buffer b \<and> end_traj b v = Inr b' \<longrightarrow> ptr b' = ptr b) \<and>
   (\<forall>b b' d. get b = Inr (b', d) \<longrightarrow> ptr b = max_size b \<and> ptr b' = 0)"
proof -
  have st: "ptr b' = ptr b + 1" if "wf_buffer b" "store b obs act rew val logp = Inr b'"
    for b b' obs act rew val logp
    using store_preserves_wf [OF that] by simp
  have et: "ptr b' = ptr b" if "wf_buffer b" "end_traj b v = Inr b'" for b b' v
    using end_traj_preserves_wf [OF that(1), of v] that(2) by auto
  have gt: "ptr b = max_size b \<and> ptr b' = 0" if "get b = Inr (b', d)" for b b' d
  proof (cases "ptr b = max_size b")
    case True
    then show ?thesis using that by (auto simp: get_full)
  next
    case False
    then show ?thesis using that by (simp add: get_not_full)
  qed
  show ?thesis
    unfolding train_def
    using train_with_ok [OF assms(1), of N E m g l env0 g0 \<theta>0 \<phi>0]
      train_with_ok [OF assms(1), of 3000 50 300 "99 / 100" "97 / 100" env0 g0 \<theta>0 \<phi>0] st et gt
    by blast
qed

theorem train_epoch_sequence_witness:
  "env_obs_dim example_collab8 8 \<and>
   (\<exists>s. train_with example_collab8 2 1 5 (99 / 100) (97 / 100) 0 [] 0 0 = Inr (True, s) \<and>
      epoch_block 2 (trace s) \<and>
      trace s = [EvStore 0, EvStore 1, EvEndTraj 5, EvGet 2 2, EvPiUpdate, EvVUpdate] \<and>
      calls s = [CallStore (replicate 8 0) A0 1 5 (log_prob (\<lambda>a. if a = A1 then 1 else 0) A0),
                 CallStore (replicate 8 0) A0 1 5 (log_prob (\<lambda>a. if a = A1 then 1 else 0) A0),
                 CallEndTraj 5, CallGet, CallPiUpdate, CallVUpdate] \<and>
      map_sum id snd (replay example_collab8 (VPGBuffer 8 2 (99 / 100) (97 / 100), 0, 0, None)
        (calls s)) = Inr (trace s) \<and>
      ac_pi s = 1 \<and> ac_v s = 100 \<and> ptr (buf s) = 0)"
proof -
  have env: "env_obs_dim example_collab8 8"
    by (simp add: env_obs_dim_def example_collab8_def example_collab_def)
  have pos: "0 < (2::nat)"
    by simp
  from train_epoch_sequence [OF env pos, of 1 5 "99 / 100" "97 / 100" 0 "[]" 0 0]
  obtain s blocks data
    where run: "train_with example_collab8 2 1 5 (99 / 100) (97 / 100) 0 [] 0 0 = Inr (True, s)"
      and tr: "trace s = concat blocks" and len: "length blocks = 1"
      and all: "\<forall>blk\<in>set blocks. epoch_block 2 blk"
      and rp: "replay example_collab8 (VPGBuffer 8 2 (99 / 100) (97 / 100), 0, 0, None) (calls s) =
                 Inr ((buf s, ac_pi s, ac_v s, data), trace s)"
    by blast
  from len obtain blk where "blocks = [blk]"
    by (cases blocks) auto
  then have blk: "epoch_block 2 (trace s)"
    using tr all by simp
  have ev: "map_sum id (\<lambda>r. (trace (snd r), calls (snd r), ac_pi (snd r), ac_v (snd r),
                              ptr (buf (snd r))))
          (train_with example_collab8 2 1 5 (99 / 100) (97 / 100) 0 [] 0 0) =
        Inr ([EvStore 0, EvStore 1, EvEndTraj 5, EvGet 2 2, EvPiUpdate, EvVUpdate],
             [CallStore (replicate 8 0) A0 1 5 (log_prob (\<lambda>a. if a = A1 then 1 else 0) A0),
              CallStore (replicate 8 0) A0 1 5 (log_prob (\<lambda>a. if a = A1 then 1 else 0) A0),
              CallEndTraj 5, CallGet, CallPiUpdate, CallVUpdate],
             1, 100, 0)"
    by (simp add: train_with_def train_epoch_def numeral_2_eq_2 train_step_def step_eq
        example_collab8_def example_collab_def VPGBuffer_def store_def np_set_def np_set_row_def
        row_fits_def broadcast_row_def end_traj_def np_slice_def
        np_binop_def np_set_slice_def get_def pi_update_def v_update_def broadcastable_def
        length_discount_cumsum Let_def)
  then have vals: "trace s = [EvStore 0, EvStore 1, EvEndTraj 5, EvGet 2 2, EvPiUpdate, EvVUpdate]"
    "calls s = [CallStore (replicate 8 0) A0 1 5 (log_prob (\<lambda>a. if a = A1 then 1 else 0) A0),
                CallStore (replicate 8 0) A0 1 5 (log_prob (\<lambda>a. if a = A1 then 1 else 0) A0),
                CallEndTraj 5, CallGet, CallPiUpdate, CallVUpdate]"
    "ac_pi s = 1" "ac_v s = 100" "ptr (buf s) = 0"
    unfolding run by simp_all
  have "map_sum id snd (replay example_collab8 (VPGBuffer 8 2 (99 / 100) (97 / 100), 0, 0, None)
          (calls s)) = Inr (trace s)"
    using rp by simp
  then show ?thesis
    using env run blk vals by blast
qed

lemma bc_map2_same_length: "length xs = length ys \<Longrightarrow> bc_map2 f xs ys = map2 f xs ys"
  by (simp add: bc_map2_def)

lemma map2_fmul_Fin: "map2 fmul (map Fin xs) (map Fin ys) = map Fin (map2 (*) xs ys)"
  by (simp add: zip_map_map split_def)

lemma sum_list_map2_mult:
  "length xs = length ys \<Longrightarrow>
     sum_list (map2 (*) xs ys) = (\<Sum>i<length xs. xs ! i * ys ! i :: real)"
  by (simp add: sum_list_sum_nth atLeast0LessThan)

lemma get_batch:
  assumes "wf_buffer b" and "get b = Inr (b', d)"
  shows "length (data_obs d) = max_size b \<and> length (data_act d) = max_size b \<and>
         length (data_phi d) = max_size b"
proof -
  have "ptr b = max_size b"
    using assms(2) by (cases "ptr b = max_size b") (simp_all add: get_def)
  then show ?thesis
    using assms by (auto simp: get_full wf_buffer_def)
qed

text \<open>
  C8.  For a batch that \<open>get\<close> returns, \<open>pi_update\<close> succeeds and is one zeroing of the
  gradients, one \<open>backward\<close> of the loss \<open>pi_loss\<close> and one optimiser step.  The loss, as
  a function of the policy parameters, is the negated mean of the products of each
  advantage with the log-probability of the stored action under the distribution that
  these parameters give at the stored observation (the log-probabilities stored in the
  batch are not used); for finite advantages it is
  \<open>- (\<Sum>i<n. adv[i] * log_prob[i]) / n\<close>.  In every epoch of the training loop (with an
  environment whose observations have the length of the rows of the buffer) the policy
  side after the epoch is the result of this update, applied once to the batch of the
  epoch's \<open>get\<close> and to the policy side at the start of the epoch.
\<close>

theorem pi_update_spec:
  assumes "wf_buffer b" and "get b = Inr (b', d)"
  shows "pi_update c \<theta> d =
           Inr (pi_opt_step c (pi_backward c (pi_loss c d) (pi_zero_grad c \<theta>))) \<and>
         (\<forall>\<theta>'. pi_loss c d \<theta>' =
            fneg (np_mean (map2 fmul (data_phi d)
              (map2 (\<lambda>obs act. Fin (log_prob (logits_net c \<theta>' obs) act))
                 (data_obs d) (data_act d))))) \<and>
         (\<forall>\<theta>' advs. data_phi d = map Fin advs \<and> advs \<noteq> [] \<longrightarrow>
            pi_loss c d \<theta>' =
              Fin (- (\<Sum>i<length advs.
                        advs ! i * log_prob (logits_net c \<theta>' (data_obs d ! i)) (data_act d ! i)) /
                     real (length advs))) \<and>
         (\<forall>N m s k. train_inv N 0 s \<and> obs_inv k s \<and> env_obs_dim c k \<longrightarrow>
            (\<exists>s' s1 b1 d1. train_epoch c N m s = Inr s' \<and>
               train_steps c N m 0 N (s\<lparr>ep_returns := []\<rparr>) = Inr s1 \<and>
               get (buf s1) = Inr (b1, d1) \<and> pi_update c (ac_pi s) d1 = Inr (ac_pi s')))"
proof -
  note len = get_batch [OF assms]
  have lo: "length (data_obs d) = length (data_act d)"
    and lp: "length (data_phi d) = length (data_act d)"
    using len by simp_all
  have upd: "pi_update c \<theta> d =
           Inr (pi_opt_step c (pi_backward c (pi_loss c d) (pi_zero_grad c \<theta>)))"
    using lo lp by (rule pi_update_ok)
  have loss: "pi_loss c d \<theta>' =
            fneg (np_mean (map2 fmul (data_phi d)
              (map2 (\<lambda>obs act. Fin (log_prob (logits_net c \<theta>' obs) act))
                 (data_obs d) (data_act d))))" for \<theta>'
    using lo lp
    by (simp add: pi_loss_def Let_def bc_map2_same_length distribution_def
        log_prob_from_distribution_def split_def comp_def)
  have fin: "pi_loss c d \<theta>' =
              Fin (- (\<Sum>i<length advs.
                        advs ! i * log_prob (logits_net c \<theta>' (data_obs d ! i)) (data_act d ! i)) /
                     real (length advs))"
    if phi: "data_phi d = map Fin advs" and ne: "advs \<noteq> []" for \<theta>' advs
  proof -
    let ?lp = "map2 (\<lambda>obs act. log_prob (logits_net c \<theta>' obs) act) (data_obs d) (data_act d)"
    have "length (data_phi d) = length advs"
      by (simp add: phi)
    then have ll: "length advs = length ?lp" and la: "length advs = length (data_act d)"
      using lo lp by simp_all
    have "map2 (\<lambda>obs act. Fin (log_prob (logits_net c \<theta>' obs) act)) (data_obs d) (data_act d) =
            map Fin ?lp"
      by (simp add: split_def)
    then have "pi_loss c d \<theta>' = fneg (np_mean (map Fin (map2 (*) advs ?lp)))"
      unfolding loss phi by (simp only: map2_fmul_Fin)
    also have "\<dots> = Fin (- (sum_list (map2 (*) advs ?lp) / real (length advs)))"
    proof -
      have l2: "length (map2 (*) advs ?lp) = length advs"
        using ll by simp
      then have "map2 (*) advs ?lp \<noteq> []"
        using ne by (metis length_0_conv)
      then have "np_mean (map Fin (map2 (*) advs ?lp)) = Fin (spec_mean (map2 (*) advs ?lp))"
        by (rule np_mean_Fin)
      then show ?thesis
        unfolding spec_mean_def l2 by (simp only: fneg.simps)
    qed
    also have "sum_list (map2 (*) advs ?lp) = (\<Sum>i<length advs. advs ! i * ?lp ! i)"
      using ll by (rule sum_list_map2_mult)
    also have "\<dots> = (\<Sum>i<length advs.
        advs ! i * log_prob (logits_net c \<theta>' (data_obs d ! i)) (data_act d ! i))"
      using lo la by (intro sum.cong) simp_all
    finally show ?thesis by simp
  qed
  have ep: "\<exists>s' s1 b1 d1. train_epoch c N m s = Inr s' \<and>
               train_steps c N m 0 N (s\<lparr>ep_returns := []\<rparr>) = Inr s1 \<and>
               get (buf s1) = Inr (b1, d1) \<and> pi_update c (ac_pi s) d1 = Inr (ac_pi s')"
    if "train_inv N 0 s" and "obs_inv k s" and "env_obs_dim c k" for N m s k
    using train_epoch_ok [OF that, of m] by blast
  show ?thesis
    using upd loss fin ep by blast
qed

theorem pi_update_spec_witness:
  "wf_buffer ((VPGBuffer 1 2 1 1)\<lparr>phi_buf := [Fin 1, Fin 3], act_buf := [A0, A1], ptr := 2\<rparr>) \<and>
   (\<exists>b' d. get ((VPGBuffer 1 2 1 1)\<lparr>phi_buf := [Fin 1, Fin 3], act_buf := [A0, A1], ptr := 2\<rparr>) =
              Inr (b', d) \<and>
      pi_update example_collab 0 d = Inr 1 \<and> pi_loss example_collab d 0 = Fin (- (1 / 2)))"
proof -
  let ?B = "(VPGBuffer 1 2 1 1)\<lparr>phi_buf := [Fin 1, Fin 3], act_buf := [A0, A1], ptr := 2\<rparr>"
  have full: "ptr ?B = max_size ?B" and w: "wf_buffer ?B"
    by (simp_all add: VPGBuffer_def wf_buffer_def)
  have sm: "spec_mean [1, 3] = 2"
    by (simp add: spec_mean_def)
  have sd: "spec_std [1, 3] = 1"
    by (simp add: spec_std_def sm)
  have nz: "[1, 3 :: real] \<noteq> []" "spec_std [1, 3] \<noteq> 0"
    by (simp_all add: sd)
  obtain b' d where g: "get ?B = Inr (b', d)"
    and phi: "data_phi d = map (\<lambda>x. fdiv (fsub x (np_mean (map Fin [1, 3]))) (np_std (map Fin [1, 3])))
                             (map Fin [1, 3])"
    and oa: "data_obs d = [[0], [0]]" "data_act d = [A0, A1]"
    using get_full [OF full] by (simp add: VPGBuffer_def numeral_2_eq_2)
  have phi': "data_phi d = map Fin [- 1, 1]"
    unfolding phi normalise_Fin [OF nz] by (simp add: sm sd)
  note spec = pi_update_spec [OF w g, of example_collab 0]
  have "pi_update example_collab 0 d = Inr 1"
    using spec by (simp add: example_collab_def)
  moreover have "pi_loss example_collab d 0 = Fin (- (1 / 2))"
  proof -
    have "pi_loss example_collab d 0 =
            Fin (- (\<Sum>i<length [- 1, 1 :: real].
                      [- 1, 1] ! i * log_prob (logits_net example_collab 0 (data_obs d ! i)) (data_act d ! i)) /
                   real (length [- 1, 1 :: real]))"
      using spec phi' by blast
    also have "\<dots> = Fin (- (1 / 2))"
      by (simp add: oa example_collab_def log_prob_def lessThan_Suc numeral_2_eq_2)
    finally show ?thesis .
  qed
  ultimately show ?thesis
    using w g by blast
qed

end
